theory Spec2Isabelle
  imports Main
begin

section \<open>Strings of the host language\<close>

text \<open>
  A string of the source language is a sequence of UTF-16 code units; \<open>length\<close>,
  indexing and the regular expressions of the source (none has the \<open>u\<close> flag) all
  work on code units. A code unit is modelled by its number.
\<close>

type_synonym jsstring = "nat list"

definition js :: "string \<Rightarrow> jsstring" where
  "js s = map of_char s"

definition is_digit :: "nat \<Rightarrow> bool" where
  "is_digit c = (48 \<le> c \<and> c \<le> 57)"

definition is_lower_az :: "nat \<Rightarrow> bool" where
  "is_lower_az c = (97 \<le> c \<and> c \<le> 122)"

definition is_upper_AZ :: "nat \<Rightarrow> bool" where
  "is_upper_AZ c = (65 \<le> c \<and> c \<le> 90)"

definition hyphen :: nat where
  "hyphen = 45"

definition colon :: nat where
  "colon = 58"

text \<open>
  The class \<open>\s\<close> of a regular expression, which is also the set that \<open>trim\<close> removes:
  TAB, LF, VT, FF, CR, SP, NBSP, U+1680, U+2000 to U+200A, U+2028, U+2029, U+202F,
  U+205F, U+3000 and U+FEFF.
\<close>

definition is_space :: "nat \<Rightarrow> bool" where
  "is_space c = (c = 9 \<or> c = 10 \<or> c = 11 \<or> c = 12 \<or> c = 13 \<or> c = 32 \<or> c = 160
     \<or> c = 5760 \<or> (8192 \<le> c \<and> c \<le> 8202) \<or> c = 8232 \<or> c = 8233 \<or> c = 8239
     \<or> c = 8287 \<or> c = 12288 \<or> c = 65279)"

text \<open>
  \<open>String.prototype.toLowerCase\<close>. The ASCII capitals go to their small letters. Two
  code units outside ASCII have a lower case with an ASCII letter in it: U+0130 (capital
  I with dot above) becomes \<open>i\<close> followed by U+0307, and U+212A (the Kelvin sign) becomes
  \<open>k\<close>. Every other code unit outside ASCII is mapped by the host to code units that are
  neither ASCII nor white space; they are kept as they are here, which makes no
  difference to \<open>generateSlug\<close>, whose next step but one deletes them whatever they are.
\<close>

definition lower_unit :: "nat \<Rightarrow> jsstring" where
  "lower_unit c =
     (if is_upper_AZ c then [c + 32]
      else if c = 304 then [105, 775]
      else if c = 8490 then [107]
      else [c])"

definition toLowerCase :: "jsstring \<Rightarrow> jsstring" where
  "toLowerCase s = concat (map lower_unit s)"

text \<open>\<open>String.prototype.toUpperCase\<close>, used by the source on the captures \<open>AM\<close> and \<open>PM\<close> only.\<close>

definition upper_unit :: "nat \<Rightarrow> nat" where
  "upper_unit c = (if is_lower_az c then c - 32 else c)"

definition toUpperCase :: "jsstring \<Rightarrow> jsstring" where
  "toUpperCase s = map upper_unit s"

definition trim :: "jsstring \<Rightarrow> jsstring" where
  "trim s = rev (dropWhile is_space (rev (dropWhile is_space s)))"

subsection \<open>Global replacement\<close>

text \<open>
  \<open>s.replace(/[C]/g, r)\<close> for a character class \<open>C\<close>: every code unit of the class is
  replaced by \<open>r\<close>.
\<close>

definition replace_class :: "(nat \<Rightarrow> bool) \<Rightarrow> jsstring \<Rightarrow> jsstring \<Rightarrow> jsstring" where
  "replace_class P r s = concat (map (\<lambda>c. if P c then r else [c]) s)"

text \<open>
  \<open>s.replace(/[C]+/g, r)\<close>: the scan goes from left to right; where a code unit of the
  class is found the greedy \<open>+\<close> takes the whole run, the run is replaced by \<open>r\<close>, and the
  scan goes on after it.
\<close>

function replace_plus :: "(nat \<Rightarrow> bool) \<Rightarrow> jsstring \<Rightarrow> jsstring \<Rightarrow> jsstring" where
  "replace_plus P r [] = []"
| "replace_plus P r (c # cs) =
     (if P c then r @ replace_plus P r (dropWhile P cs) else c # replace_plus P r cs)"
  by pat_completeness auto
termination
  by (relation "measure (\<lambda>(P, r, s). length s)")
     (auto simp: less_Suc_eq_le length_dropWhile_le)

text \<open>
  \<open>s.replace(/^-|-$/g, '')\<close>: the first alternative matches a hyphen at index 0, the
  second a hyphen at the last index; the scan resumes after a match, so a string that
  is one hyphen long is matched once, by the first alternative.
\<close>

definition drop_last_hyphen :: "jsstring \<Rightarrow> jsstring" where
  "drop_last_hyphen s = (if s \<noteq> [] \<and> last s = hyphen then butlast s else s)"

definition replace_edge_hyphens :: "jsstring \<Rightarrow> jsstring" where
  "replace_edge_hyphens s =
     (case s of
        [] \<Rightarrow> []
      | c # cs \<Rightarrow> if c = hyphen then drop_last_hyphen cs else drop_last_hyphen (c # cs))"

section \<open>Thrown values\<close>

text \<open>
  What a \<open>throw\<close> or a rejected promise carries. \<open>Error\<close>, \<open>TypeError\<close> and
  \<open>SyntaxError\<close> carry their message. \<open>ValidationError\<close> is the error of the document
  library when validators fail: the failing paths in the order of the schema, each with
  the message the schema gives or with the mark that the value could not be cast to the
  type of the path. \<open>DuplicateKey\<close> is the error of the store when a unique index
  rejects an insert, with the name of the index. All of these are instances of \<open>Error\<close>;
  \<open>NonError\<close> is any other thrown value (the source tests \<open>e instanceof Error\<close>).
\<close>

datatype path_error = Invalid jsstring | CastFailed

datatype thrown =
    Error jsstring
  | TypeError jsstring
  | SyntaxError jsstring
  | ValidationError "(string \<times> path_error) list"
  | DuplicateKey string
  | NonError

definition instanceof_Error :: "thrown \<Rightarrow> bool" where
  "instanceof_Error e = (e \<noteq> NonError)"

section \<open>Normalisation functions of the Event model\<close>

subsection \<open>generateSlug\<close>

text \<open>The class \<open>[^a-z0-9\s-]\<close>.\<close>

definition not_slug_unit :: "nat \<Rightarrow> bool" where
  "not_slug_unit c = (\<not> (is_lower_az c \<or> is_digit c \<or> is_space c \<or> c = hyphen))"

definition generateSlug :: "jsstring \<Rightarrow> jsstring" where
  "generateSlug title =
     replace_edge_hyphens
       (replace_plus (\<lambda>c. c = hyphen) [hyphen]
         (replace_plus is_space [hyphen]
           (replace_class not_slug_unit []
             (trim (toLowerCase title)))))"

subsection \<open>The slug as the specification words it\<close>

text \<open>
  The specification describes the slug by six steps: lower-casing, trimming, deleting
  every character outside \<open>[a-z0-9\s-]\<close>, replacing each white-space run by one hyphen,
  collapsing repeated hyphens to one, and stripping leading and trailing hyphens. The
  last three are written here without reference to the scanning of a regular expression:
  a run is collapsed by looking one code unit ahead, and all hyphens at either end are
  stripped, however many there are.
\<close>

definition slug_unit :: "nat \<Rightarrow> bool" where
  "slug_unit c = (is_lower_az c \<or> is_digit c \<or> is_space c \<or> c = hyphen)"

fun collapse_runs :: "(nat \<Rightarrow> bool) \<Rightarrow> nat \<Rightarrow> jsstring \<Rightarrow> jsstring" where
  "collapse_runs P h [] = []"
| "collapse_runs P h [c] = (if P c then [h] else [c])"
| "collapse_runs P h (c # d # cs) =
     (if P c \<and> P d then collapse_runs P h (d # cs)
      else if P c then h # collapse_runs P h (d # cs)
      else c # collapse_runs P h (d # cs))"

definition strip_hyphens :: "jsstring \<Rightarrow> jsstring" where
  "strip_hyphens s = rev (dropWhile (\<lambda>c. c = hyphen) (rev (dropWhile (\<lambda>c. c = hyphen) s)))"

definition slug_spec :: "jsstring \<Rightarrow> jsstring" where
  "slug_spec title =
     strip_hyphens
       (collapse_runs (\<lambda>c. c = hyphen) hyphen
         (collapse_runs is_space hyphen
           (filter slug_unit (trim (toLowerCase title)))))"

text \<open>No two hyphens in a row.\<close>

abbreviation no_run :: "jsstring \<Rightarrow> bool" where
  "no_run s \<equiv> successively (\<lambda>a b. \<not> (a = hyphen \<and> b = hyphen)) s"

text \<open>The code units a slug is made of: \<open>[a-z0-9-]\<close>.\<close>

definition slug_out :: "nat \<Rightarrow> bool" where
  "slug_out c = (is_lower_az c \<or> is_digit c \<or> c = hyphen)"

subsection \<open>normalizeTime\<close>

definition InvalidTimeFormat :: thrown where
  "InvalidTimeFormat = Error (js ''Invalid time format. Use HH:MM or HH:MM AM/PM'')"

definition InvalidTimeValues :: thrown where
  "InvalidTimeValues = Error (js ''Invalid time values'')"

text \<open>
  \<open>parseInt\<close> on the captures of \<open>\d{1,2}\<close> and \<open>\d{2}\<close>: the decimal value of the
  leading run of digits. The captures are non-empty runs of ASCII digits, so neither
  \<open>NaN\<close>, a sign nor a radix prefix arises.
\<close>

definition digit_value :: "nat \<Rightarrow> int" where
  "digit_value c = int c - 48"

definition parseInt :: "jsstring \<Rightarrow> int" where
  "parseInt s = foldl (\<lambda>a c. 10 * a + digit_value c) 0 (takeWhile is_digit s)"

text \<open>\<open>Number.prototype.toString\<close> on an integer, and \<open>padStart\<close>.\<close>

function decimal :: "nat \<Rightarrow> jsstring" where
  "decimal n = (if n < 10 then [48 + n] else decimal (n div 10) @ [48 + n mod 10])"
  by pat_completeness auto
termination
  by (relation "measure (\<lambda>n. n)") auto

declare decimal.simps [simp del]

definition toString :: "int \<Rightarrow> jsstring" where
  "toString i = (if i < 0 then hyphen # decimal (nat (- i)) else decimal (nat i))"

definition padStart :: "nat \<Rightarrow> nat \<Rightarrow> jsstring \<Rightarrow> jsstring" where
  "padStart n c s = replicate (n - length s) c @ s"

text \<open>
  The regular expression \<open>/^(\d{1,2}):(\d{2})(\s*(AM|PM))?$/i\<close>, matched against the
  whole trimmed text. \<open>is_AM_PM\<close> is the group \<open>(AM|PM)\<close> under the \<open>i\<close> flag, which
  compares the upper case of each code unit. \<open>match_period\<close> is the optional group and
  the final \<open>$\<close>: the greedy \<open>\s*\<close> takes every white-space unit, and if \<open>AM\<close> or
  \<open>PM\<close> does not follow up to the end, the group is skipped and the text has to end
  there. \<open>match_hours n\<close> tries an hour of \<open>n\<close> digits; \<open>timeRegex_match\<close> tries two
  digits first, as the greedy \<open>{1,2}\<close> does, then one. The result holds the captures
  1, 2 and 4.
\<close>

definition is_AM_PM :: "jsstring \<Rightarrow> bool" where
  "is_AM_PM p =
     (case p of
        [a, m] \<Rightarrow> (upper_unit a = 65 \<or> upper_unit a = 80) \<and> upper_unit m = 77
      | _ \<Rightarrow> False)"

definition match_period :: "jsstring \<Rightarrow> jsstring option option" where
  "match_period r =
     (let r' = dropWhile is_space r
      in if is_AM_PM r' then Some (Some r')
         else if r = [] then Some None
         else None)"

definition match_hours :: "nat \<Rightarrow> jsstring \<Rightarrow> (jsstring \<times> jsstring \<times> jsstring option) option" where
  "match_hours n s =
     (if length (take n s) = n \<and> list_all is_digit (take n s) then
        (case drop n s of
           c # m1 # m2 # r \<Rightarrow>
             if c = colon \<and> is_digit m1 \<and> is_digit m2
             then map_option (\<lambda>p. (take n s, [m1, m2], p)) (match_period r)
             else None
         | _ \<Rightarrow> None)
      else None)"

definition timeRegex_match :: "jsstring \<Rightarrow> (jsstring \<times> jsstring \<times> jsstring option) option" where
  "timeRegex_match s =
     (case match_hours 2 s of Some m \<Rightarrow> Some m | None \<Rightarrow> match_hours 1 s)"

text \<open>The block \<open>if (period) { ... }\<close>: the two assignments in the order of the source.\<close>

definition to_24_hour :: "int \<Rightarrow> jsstring option \<Rightarrow> int" where
  "to_24_hour hours period =
     (case period of
        None \<Rightarrow> hours
      | Some pd \<Rightarrow>
          (let h1 = (if pd = js ''PM'' \<and> hours \<noteq> 12 then hours + 12 else hours)
           in if pd = js ''AM'' \<and> h1 = 12 then 0 else h1))"

definition normalizeTime :: "jsstring \<Rightarrow> thrown + jsstring" where
  "normalizeTime timeString =
     (case timeRegex_match (trim timeString) of
        None \<Rightarrow> Inl InvalidTimeFormat
      | Some (h, minutes, p) \<Rightarrow>
          (let hours = to_24_hour (parseInt h) (map_option toUpperCase p)
           in if hours < 0 \<or> hours > 23 \<or> parseInt minutes < 0 \<or> parseInt minutes > 59
              then Inl InvalidTimeValues
              else Inr (padStart 2 48 (toString hours) @ [colon] @ minutes)))"

subsection \<open>The accepted time pattern as the specification words it\<close>

text \<open>
  A text is accepted when it is, between two runs of white space, an hour of one or two
  digits, a colon, a minute of two digits and optionally \<open>AM\<close> or \<open>PM\<close> in any mix of
  cases after any white space. \<open>hour24\<close> is the conversion to the 24-hour clock and
  \<open>two_digits\<close> the zero-padded hour.
\<close>

datatype meridiem = AM | PM

definition am_pm_spellings :: "(jsstring \<times> meridiem) list" where
  "am_pm_spellings =
     [(js ''AM'', AM), (js ''Am'', AM), (js ''aM'', AM), (js ''am'', AM),
      (js ''PM'', PM), (js ''Pm'', PM), (js ''pM'', PM), (js ''pm'', PM)]"

fun hour24 :: "int \<Rightarrow> meridiem option \<Rightarrow> int" where
  "hour24 x None = x"
| "hour24 x (Some AM) = (if x = 12 then 0 else x)"
| "hour24 x (Some PM) = (if x = 12 then 12 else x + 12)"

definition period_text :: "(jsstring \<times> jsstring \<times> meridiem) option \<Rightarrow> jsstring" where
  "period_text p = (case p of None \<Rightarrow> [] | Some (w, ap, md) \<Rightarrow> w @ ap)"

definition period_ok :: "(jsstring \<times> jsstring \<times> meridiem) option \<Rightarrow> bool" where
  "period_ok p =
     (case p of
        None \<Rightarrow> True
      | Some (w, ap, md) \<Rightarrow> list_all is_space w \<and> (ap, md) \<in> set am_pm_spellings)"

definition time_pattern :: "jsstring \<Rightarrow> bool" where
  "time_pattern s =
     (\<exists>w1 h m p w2.
        s = w1 @ h @ [colon] @ m @ period_text p @ w2
        \<and> list_all is_space w1 \<and> list_all is_space w2
        \<and> (length h = 1 \<or> length h = 2) \<and> list_all is_digit h
        \<and> length m = 2 \<and> list_all is_digit m
        \<and> period_ok p)"

definition two_digits :: "int \<Rightarrow> jsstring" where
  "two_digits i = [48 + nat i div 10, 48 + nat i mod 10]"

subsection \<open>normalizeDate\<close>

definition InvalidDateFormat :: thrown where
  "InvalidDateFormat = Error (js ''Invalid date format'')"

text \<open>
  \<open>new Date(dateString)\<close>. How a text is read is left to the host (only the ISO forms
  are fixed by the language; a text such as \<open>March 5, 2024\<close> is read by the host's own
  rules, and as local time). The host's \<open>Date.parse\<close> is therefore a parameter: it gives
  the time value in milliseconds since 1 January 1970 UTC, or \<open>None\<close> for \<open>NaN\<close>. The
  constructor clips the time value to the range of a Date.
\<close>

definition msPerDay :: int where
  "msPerDay = 86400000"

definition TimeClip :: "int \<Rightarrow> int option" where
  "TimeClip t = (if \<bar>t\<bar> > 8640000000000000 then None else Some t)"

definition new_Date :: "(jsstring \<Rightarrow> int option) \<Rightarrow> jsstring \<Rightarrow> int option" where
  "new_Date parse s = (case parse s of None \<Rightarrow> None | Some t \<Rightarrow> TimeClip t)"

text \<open>
  \<open>Date.prototype.toISOString\<close>, with the calendar functions of the language
  definition on the day number \<open>t div msPerDay\<close>: \<open>DayFromYear\<close>, \<open>DaysInYear\<close>,
  \<open>YearFromTime\<close> (the largest year that starts on or before the day: it is looked for
  from the first year of the 400-year cycle the day lies in, which has 146097 days, so
  that 400 steps are enough), \<open>InLeapYear\<close>, \<open>DayWithinYear\<close>, \<open>MonthFromTime\<close> (0 for
  January) and \<open>DateFromTime\<close>. The year is written with four digits from 0 to 9999 and
  with a sign and six digits otherwise.
\<close>

definition DayFromYear :: "int \<Rightarrow> int" where
  "DayFromYear y = 365 * (y - 1970) + (y - 1969) div 4 - (y - 1901) div 100 + (y - 1601) div 400"

definition DaysInYear :: "int \<Rightarrow> int" where
  "DaysInYear y = (if y mod 4 \<noteq> 0 then 365 else if y mod 100 \<noteq> 0 then 366
                   else if y mod 400 \<noteq> 0 then 365 else 366)"

fun year_scan :: "nat \<Rightarrow> int \<Rightarrow> int \<Rightarrow> int" where
  "year_scan 0 d y = y"
| "year_scan (Suc n) d y = (if DayFromYear (y + 1) \<le> d then year_scan n d (y + 1) else y)"

definition YearFromDay :: "int \<Rightarrow> int" where
  "YearFromDay d = year_scan 400 d (2000 + 400 * ((d - 10957) div 146097))"

definition InLeapYear :: "int \<Rightarrow> int" where
  "InLeapYear d = (if DaysInYear (YearFromDay d) = 366 then 1 else 0)"

definition DayWithinYear :: "int \<Rightarrow> int" where
  "DayWithinYear d = d - DayFromYear (YearFromDay d)"

definition MonthFromDay :: "int \<Rightarrow> int" where
  "MonthFromDay d =
     (let w = DayWithinYear d; l = InLeapYear d
      in if w < 31 then 0
         else if w < 59 + l then 1
         else if w < 90 + l then 2
         else if w < 120 + l then 3
         else if w < 151 + l then 4
         else if w < 181 + l then 5
         else if w < 212 + l then 6
         else if w < 243 + l then 7
         else if w < 273 + l then 8
         else if w < 304 + l then 9
         else if w < 334 + l then 10
         else 11)"

definition DateFromDay :: "int \<Rightarrow> int" where
  "DateFromDay d =
     (let w = DayWithinYear d; l = InLeapYear d; m = MonthFromDay d
      in if m = 0 then w + 1
         else if m = 1 then w - 30
         else if m = 2 then w - 58 - l
         else if m = 3 then w - 89 - l
         else if m = 4 then w - 119 - l
         else if m = 5 then w - 150 - l
         else if m = 6 then w - 180 - l
         else if m = 7 then w - 211 - l
         else if m = 8 then w - 242 - l
         else if m = 9 then w - 272 - l
         else if m = 10 then w - 303 - l
         else w - 333 - l)"

definition pad :: "nat \<Rightarrow> int \<Rightarrow> jsstring" where
  "pad n i = padStart n 48 (toString i)"

definition iso_year :: "int \<Rightarrow> jsstring" where
  "iso_year y =
     (if 0 \<le> y \<and> y \<le> 9999 then pad 4 y
      else if y < 0 then hyphen # pad 6 (- y)
      else 43 # pad 6 y)"

definition toISOString :: "int \<Rightarrow> jsstring" where
  "toISOString t =
     (let d = t div msPerDay; w = t mod msPerDay
      in iso_year (YearFromDay d) @ [hyphen] @ pad 2 (MonthFromDay d + 1) @ [hyphen]
         @ pad 2 (DateFromDay d) @ [84]
         @ pad 2 (w div 3600000) @ [colon] @ pad 2 (w div 60000 mod 60) @ [colon]
         @ pad 2 (w div 1000 mod 60) @ [46] @ pad 3 (w mod 1000) @ [90])"

text \<open>\<open>s.split('T')[0]\<close>: the text before the first \<open>T\<close>.\<close>

definition split_first :: "nat \<Rightarrow> jsstring \<Rightarrow> jsstring" where
  "split_first c s = takeWhile (\<lambda>x. x \<noteq> c) s"

definition normalizeDate :: "(jsstring \<Rightarrow> int option) \<Rightarrow> jsstring \<Rightarrow> thrown + jsstring" where
  "normalizeDate parse dateString =
     (case new_Date parse dateString of
        None \<Rightarrow> Inl InvalidDateFormat
      | Some t \<Rightarrow> Inr (split_first 84 (toISOString t)))"

subsection \<open>The ISO date as the specification words it\<close>

text \<open>
  \<open>YYYY-MM-DD\<close>: four digits, a hyphen, two digits, a hyphen, two digits. \<open>host_parse\<close>
  is a sample of a host's parser on the texts the claims name, for a host \<open>tz\<close> minutes
  east of Greenwich: \<open>March 5, 2024\<close> is read as midnight of that day in local time, the
  ISO text with \<open>Z\<close> as UTC, and anything else is rejected.
\<close>

definition four_digits :: "int \<Rightarrow> jsstring" where
  "four_digits i =
     [48 + nat i div 1000, 48 + nat i div 100 mod 10, 48 + nat i div 10 mod 10, 48 + nat i mod 10]"

definition iso_date :: "int \<Rightarrow> int \<Rightarrow> int \<Rightarrow> jsstring" where
  "iso_date y m d = four_digits y @ [hyphen] @ two_digits m @ [hyphen] @ two_digits d"

definition host_parse :: "int \<Rightarrow> jsstring \<Rightarrow> int option" where
  "host_parse tz s =
     (if s = js ''March 5, 2024'' then Some (1709596800000 - tz * 60000)
      else if s = js ''+010000-01-01T00:00:00.000Z'' then Some 253402300800000
      else None)"

section \<open>Documents, the host and the store\<close>

text \<open>
  An identifier of the store is written as its hexadecimal text. A document in memory
  is the record of its paths together with what the document library tracks: whether
  it is new and which paths have been set or changed.
\<close>

type_synonym objectId = jsstring

type_synonym bytes = "nat list"

record 'a document =
  doc_of :: 'a
  isNew :: bool
  modifiedPaths :: "string list"

definition isModified :: "'a document \<Rightarrow> string \<Rightarrow> bool" where
  "isModified d path = (path \<in> set (modifiedPaths d))"

record event =
  ev_id :: objectId
  ev_title :: jsstring
  ev_slug :: "jsstring option"
  ev_description :: jsstring
  ev_overview :: jsstring
  ev_image :: jsstring
  ev_venue :: jsstring
  ev_location :: jsstring
  ev_date :: jsstring
  ev_time :: jsstring
  ev_mode :: jsstring
  ev_audience :: jsstring
  ev_agenda :: "jsstring list"
  ev_organizer :: jsstring
  ev_tags :: "jsstring list"
  ev_createdAt :: int
  ev_updatedAt :: int

record booking =
  bk_id :: objectId
  bk_eventId :: objectId
  bk_email :: jsstring
  bk_createdAt :: int
  bk_updatedAt :: int

text \<open>
  A value given for a path, after the document library has cast it to the type of the
  path: it cannot be cast, it is absent (\<open>null\<close> or \<open>undefined\<close>), or it is a value of
  the type.
\<close>

datatype 'a cast = Uncastable | Absent | Cast 'a

datatype json =
    JNull
  | JBool bool
  | JNumber jsstring
  | JString jsstring
  | JArray "json list"
  | JObject "(jsstring \<times> json) list"

record upload_result =
  secure_url :: jsstring

text \<open>
  The collaborators outside the repository, as parameters: the outcome of \<open>connectDB\<close>,
  the host's date parser and \<open>JSON.parse\<close>, the casts of a parsed value to an array of
  strings and of a text to an identifier by the document library, the upload to the asset host (\<open>Inl\<close> is the error
  the callback receives), the identifiers the library issues and the clock.
\<close>

record host =
  connectDB :: "thrown option"
  Date_parse :: "jsstring \<Rightarrow> int option"
  JSON_parse :: "jsstring \<Rightarrow> thrown + json"
  castStrings :: "json \<Rightarrow> jsstring list cast"
  castObjectId :: "jsstring \<Rightarrow> objectId cast"
  upload_stream :: "bytes \<Rightarrow> thrown + upload_result"
  newObjectId :: "nat \<Rightarrow> objectId"
  clock :: int

text \<open>
  The store holds the two collections. \<open>effects\<close> is the trace of the calls made to the
  collaborators, in the order they are made (each is awaited before the next statement
  runs).
\<close>

datatype effect =
    Connect
  | UploadSettled bool
  | EventCreate
  | EventFindById objectId
  | BookingCreate

record world =
  events :: "event list"
  bookings :: "booking list"
  effects :: "effect list"

definition record_effect :: "effect \<Rightarrow> world \<Rightarrow> world" where
  "record_effect x w = w\<lparr>effects := effects w @ [x]\<rparr>"

section \<open>The Event model\<close>

subsection \<open>The pre-save hook\<close>

text \<open>
  The schema declares \<open>lowercase\<close> and \<open>trim\<close> for \<open>slug\<close>, so the assignment
  \<open>event.slug = ...\<close> of the hook goes through these two setters. The three steps of
  the hook are \<open>set_slug\<close>, \<open>set_date\<close> and \<open>set_time\<close>, in the order of the source; an
  error of a normalisation function leaves the hook at once.
\<close>

definition slug_setters :: "jsstring \<Rightarrow> jsstring" where
  "slug_setters v = toLowerCase (trim v)"

definition set_slug :: "event document \<Rightarrow> event document" where
  "set_slug d =
     (if isModified d ''title'' \<or> isNew d
      then d\<lparr>doc_of := (doc_of d)\<lparr>ev_slug := Some (slug_setters (generateSlug (ev_title (doc_of d))))\<rparr>,
             modifiedPaths := ''slug'' # modifiedPaths d\<rparr>
      else d)"

definition set_date :: "(jsstring \<Rightarrow> int option) \<Rightarrow> event document \<Rightarrow> thrown + event document" where
  "set_date parse d =
     (if isModified d ''date''
      then (case normalizeDate parse (ev_date (doc_of d)) of
              Inl e \<Rightarrow> Inl e
            | Inr v \<Rightarrow> Inr (d\<lparr>doc_of := (doc_of d)\<lparr>ev_date := v\<rparr>\<rparr>))
      else Inr d)"

definition set_time :: "event document \<Rightarrow> thrown + event document" where
  "set_time d =
     (if isModified d ''time''
      then (case normalizeTime (ev_time (doc_of d)) of
              Inl e \<Rightarrow> Inl e
            | Inr v \<Rightarrow> Inr (d\<lparr>doc_of := (doc_of d)\<lparr>ev_time := v\<rparr>\<rparr>))
      else Inr d)"

definition EventSchema_pre_save ::
  "(jsstring \<Rightarrow> int option) \<Rightarrow> event document \<Rightarrow> thrown + event document" where
  "EventSchema_pre_save parse d =
     (case set_date parse (set_slug d) of
        Inl e \<Rightarrow> Inl e
      | Inr d2 \<Rightarrow> set_time d2)"

subsection \<open>The schema\<close>

text \<open>
  What \<open>Event.create\<close> is given, path by path. The validators of the schema: a path
  reports its first failing validator; \<open>required\<close> fails on an absent value and, for a
  string, on the empty string; the other validators run on present values only.
\<close>

record event_input =
  in_title :: "jsstring cast"
  in_slug :: "jsstring cast"
  in_description :: "jsstring cast"
  in_overview :: "jsstring cast"
  in_image :: "jsstring cast"
  in_venue :: "jsstring cast"
  in_location :: "jsstring cast"
  in_date :: "jsstring cast"
  in_time :: "jsstring cast"
  in_mode :: "jsstring cast"
  in_audience :: "jsstring cast"
  in_agenda :: "jsstring list cast"
  in_organizer :: "jsstring cast"
  in_tags :: "jsstring list cast"

definition map_cast :: "('a \<Rightarrow> 'b) \<Rightarrow> 'a cast \<Rightarrow> 'b cast" where
  "map_cast f v = (case v of Uncastable \<Rightarrow> Uncastable | Absent \<Rightarrow> Absent | Cast x \<Rightarrow> Cast (f x))"

definition value_or :: "'a \<Rightarrow> 'a cast \<Rightarrow> 'a" where
  "value_or a v = (case v of Cast x \<Rightarrow> x | _ \<Rightarrow> a)"

definition given :: "string \<Rightarrow> 'a cast \<Rightarrow> string list" where
  "given path v = (case v of Absent \<Rightarrow> [] | _ \<Rightarrow> [path])"

definition required_string ::
  "string \<Rightarrow> string \<Rightarrow> (jsstring \<Rightarrow> string option) \<Rightarrow> jsstring cast \<Rightarrow> (string \<times> path_error) list" where
  "required_string path msg further v =
     (case v of
        Uncastable \<Rightarrow> [(path, CastFailed)]
      | Absent \<Rightarrow> [(path, Invalid (js msg))]
      | Cast s \<Rightarrow>
          if s = [] then [(path, Invalid (js msg))]
          else (case further s of None \<Rightarrow> [] | Some m \<Rightarrow> [(path, Invalid (js m))]))"

definition optional_string :: "string \<Rightarrow> jsstring cast \<Rightarrow> (string \<times> path_error) list" where
  "optional_string path v = (case v of Uncastable \<Rightarrow> [(path, CastFailed)] | _ \<Rightarrow> [])"

definition required_array ::
  "string \<Rightarrow> string \<Rightarrow> string \<Rightarrow> jsstring list cast \<Rightarrow> (string \<times> path_error) list" where
  "required_array path msg empty_msg v =
     (case v of
        Uncastable \<Rightarrow> [(path, CastFailed)]
      | Absent \<Rightarrow> [(path, Invalid (js msg))]
      | Cast xs \<Rightarrow> if length xs > 0 then [] else [(path, Invalid (js empty_msg))])"

definition maxlength :: "nat \<Rightarrow> string \<Rightarrow> jsstring \<Rightarrow> string option" where
  "maxlength n msg s = (if length s > n then Some msg else None)"

definition no_more :: "jsstring \<Rightarrow> string option" where
  "no_more s = None"

definition mode_enum :: "jsstring \<Rightarrow> string option" where
  "mode_enum s =
     (if s \<in> set [js ''online'', js ''offline'', js ''hybrid''] then None
      else Some ''Mode must be either online, offline, or hybrid'')"

definition EventSchema_setters :: "event_input \<Rightarrow> event_input" where
  "EventSchema_setters i =
     i\<lparr>in_title := map_cast trim (in_title i),
       in_slug := map_cast slug_setters (in_slug i),
       in_description := map_cast trim (in_description i),
       in_overview := map_cast trim (in_overview i),
       in_image := map_cast trim (in_image i),
       in_venue := map_cast trim (in_venue i),
       in_location := map_cast trim (in_location i),
       in_audience := map_cast trim (in_audience i),
       in_organizer := map_cast trim (in_organizer i)\<rparr>"

definition EventSchema_validate :: "event_input \<Rightarrow> (string \<times> path_error) list" where
  "EventSchema_validate i =
     required_string ''title'' ''Title is required''
         (maxlength 100 ''Title cannot exceed 100 characters'') (in_title i)
     @ optional_string ''slug'' (in_slug i)
     @ required_string ''description'' ''Description is required''
         (maxlength 1000 ''Description cannot exceed 1000 characters'') (in_description i)
     @ required_string ''overview'' ''Overview is required''
         (maxlength 500 ''Overview cannot exceed 500 characters'') (in_overview i)
     @ required_string ''image'' ''Image URL is required'' no_more (in_image i)
     @ required_string ''venue'' ''Venue is required'' no_more (in_venue i)
     @ required_string ''location'' ''Location is required'' no_more (in_location i)
     @ required_string ''date'' ''Date is required'' no_more (in_date i)
     @ required_string ''time'' ''Time is required'' no_more (in_time i)
     @ required_string ''mode'' ''Mode is required'' mode_enum (in_mode i)
     @ required_string ''audience'' ''Audience is required'' no_more (in_audience i)
     @ required_array ''agenda'' ''Agenda is required'' ''At least one agenda item is required''
         (in_agenda i)
     @ required_string ''organizer'' ''Organizer is required'' no_more (in_organizer i)
     @ required_array ''tags'' ''Tags are required'' ''At least one tag is required'' (in_tags i)"

definition given_paths :: "event_input \<Rightarrow> string list" where
  "given_paths i =
     given ''title'' (in_title i) @ given ''slug'' (in_slug i)
     @ given ''description'' (in_description i) @ given ''overview'' (in_overview i)
     @ given ''image'' (in_image i) @ given ''venue'' (in_venue i)
     @ given ''location'' (in_location i) @ given ''date'' (in_date i)
     @ given ''time'' (in_time i) @ given ''mode'' (in_mode i)
     @ given ''audience'' (in_audience i) @ given ''agenda'' (in_agenda i)
     @ given ''organizer'' (in_organizer i) @ given ''tags'' (in_tags i)"

definition new_event :: "host \<Rightarrow> world \<Rightarrow> event_input \<Rightarrow> event document" where
  "new_event h w i =
     \<lparr>doc_of =
        \<lparr>ev_id = newObjectId h (length (events w)),
         ev_title = value_or [] (in_title i),
         ev_slug = (case in_slug i of Cast s \<Rightarrow> Some s | _ \<Rightarrow> None),
         ev_description = value_or [] (in_description i),
         ev_overview = value_or [] (in_overview i),
         ev_image = value_or [] (in_image i),
         ev_venue = value_or [] (in_venue i),
         ev_location = value_or [] (in_location i),
         ev_date = value_or [] (in_date i),
         ev_time = value_or [] (in_time i),
         ev_mode = value_or [] (in_mode i),
         ev_audience = value_or [] (in_audience i),
         ev_agenda = value_or [] (in_agenda i),
         ev_organizer = value_or [] (in_organizer i),
         ev_tags = value_or [] (in_tags i),
         ev_createdAt = clock h,
         ev_updatedAt = clock h\<rparr>,
      isNew = True,
      modifiedPaths = given_paths i\<rparr>"

subsection \<open>Event.create\<close>

text \<open>
  \<open>Event.create\<close> builds the document (the setters run), validates it, runs the
  pre-save hook and inserts the result. The schema declares a unique index on \<open>slug\<close>:
  the store rejects an insert whose slug an event of the collection already has.
\<close>

definition Event_insert :: "world \<Rightarrow> event \<Rightarrow> (thrown + event) \<times> world" where
  "Event_insert w e =
     (if \<exists>x \<in> set (events w). ev_slug x = ev_slug e
      then (Inl (DuplicateKey ''slug_1''), w)
      else (Inr e, w\<lparr>events := events w @ [e]\<rparr>))"

definition Event_create :: "host \<Rightarrow> world \<Rightarrow> event_input \<Rightarrow> (thrown + event) \<times> world" where
  "Event_create h w0 i0 =
     (let w = record_effect EventCreate w0;
          i = EventSchema_setters i0;
          errs = EventSchema_validate i
      in if errs \<noteq> [] then (Inl (ValidationError errs), w)
         else (case EventSchema_pre_save (Date_parse h) (new_event h w i) of
                 Inl e \<Rightarrow> (Inl e, w)
               | Inr d \<Rightarrow> Event_insert w (doc_of d)))"

section \<open>The Booking model\<close>

subsection \<open>The schema\<close>

text \<open>
  The validator of \<open>email\<close> tests the regular expression
  \<open>/^[a-zA-Z0-9.!#$%&'*+/=?^_`{|}~-]+@L(?:\.L)*$/\<close> where a label \<open>L\<close> is
  \<open>[a-zA-Z0-9](?:[a-zA-Z0-9-]{0,61}[a-zA-Z0-9])?\<close>: a non-empty local part, an \<open>@\<close>,
  and labels of 1 to 63 units between dots, each beginning and ending with a letter or
  digit and holding letters, digits and hyphens. Neither \<open>@\<close> nor the dot is in the class
  of the other part, so the greedy scan decides the match.
\<close>

definition is_alnum :: "nat \<Rightarrow> bool" where
  "is_alnum c = (is_lower_az c \<or> is_upper_AZ c \<or> is_digit c)"

definition is_local_unit :: "nat \<Rightarrow> bool" where
  "is_local_unit c =
     (is_alnum c \<or> c \<in> set [46, 33, 35, 36, 37, 38, 39, 42, 43, 47, 61, 63, 94, 95, 96,
        123, 124, 125, 126, 45])"

fun split_on :: "nat \<Rightarrow> jsstring \<Rightarrow> jsstring list" where
  "split_on c [] = [[]]"
| "split_on c (x # xs) =
     (if x = c then [] # split_on c xs
      else (case split_on c xs of [] \<Rightarrow> [[x]] | l # ls \<Rightarrow> (x # l) # ls))"

definition domain_label :: "jsstring \<Rightarrow> bool" where
  "domain_label l =
     (l \<noteq> [] \<and> length l \<le> 63 \<and> is_alnum (hd l) \<and> is_alnum (last l)
      \<and> list_all (\<lambda>c. is_alnum c \<or> c = hyphen) l)"

definition emailRegex_test :: "jsstring \<Rightarrow> bool" where
  "emailRegex_test email =
     (takeWhile is_local_unit email \<noteq> []
      \<and> (case dropWhile is_local_unit email of
            [] \<Rightarrow> False
          | c # rest \<Rightarrow> c = 64 \<and> list_all domain_label (split_on 46 rest)))"

text \<open>The schema declares \<open>trim\<close> and \<open>lowercase\<close> for \<open>email\<close>.\<close>

definition email_setters :: "jsstring \<Rightarrow> jsstring" where
  "email_setters v = trim (toLowerCase v)"

definition validate_email :: "jsstring \<Rightarrow> (string \<times> path_error) list" where
  "validate_email email =
     (if email = [] then [(''email'', Invalid (js ''Email is required''))]
      else if emailRegex_test email then []
      else [(''email'', Invalid (js ''Please provide a valid email address''))])"

definition validate_eventId :: "objectId cast \<Rightarrow> (string \<times> path_error) list" where
  "validate_eventId v =
     (case v of
        Uncastable \<Rightarrow> [(''eventId'', CastFailed)]
      | Absent \<Rightarrow> [(''eventId'', Invalid (js ''Event ID is required''))]
      | Cast x \<Rightarrow> [])"

subsection \<open>The pre-save hook\<close>

text \<open>
  The hook returns at once when the booking is not new and \<open>eventId\<close> is not modified.
  Otherwise it looks the event up by its identifier, and throws when there is none;
  the message holds the identifier.
\<close>

definition EventNotFound :: "objectId \<Rightarrow> thrown" where
  "EventNotFound x = Error (js ''Event with ID '' @ x @ js '' does not exist'')"

definition Event_findById :: "world \<Rightarrow> objectId \<Rightarrow> event option \<times> world" where
  "Event_findById w x =
     (find (\<lambda>e. ev_id e = x) (events w), record_effect (EventFindById x) w)"

definition BookingSchema_pre_save :: "world \<Rightarrow> booking document \<Rightarrow> thrown option \<times> world" where
  "BookingSchema_pre_save w d =
     (if \<not> isNew d \<and> \<not> isModified d ''eventId'' then (None, w)
      else (case Event_findById w (bk_eventId (doc_of d)) of
              (None, w') \<Rightarrow> (Some (EventNotFound (bk_eventId (doc_of d))), w')
            | (Some eventExists, w') \<Rightarrow> (None, w')))"

subsection \<open>Saving and creating\<close>

text \<open>
  \<open>save\<close> validates the paths of a new document, and the modified paths of a stored
  one, runs the hook and writes. The schema declares the unique index
  \<open>uniq_event_email\<close> on the pair of \<open>eventId\<close> and \<open>email\<close>.
\<close>

definition Booking_write :: "world \<Rightarrow> booking document \<Rightarrow> (thrown + booking) \<times> world" where
  "Booking_write w d =
     (let b = doc_of d
      in if list_ex (\<lambda>x. bk_id x \<noteq> bk_id b \<and> bk_eventId x = bk_eventId b \<and> bk_email x = bk_email b)
              (bookings w)
         then (Inl (DuplicateKey ''uniq_event_email''), w)
         else if isNew d then (Inr b, w\<lparr>bookings := bookings w @ [b]\<rparr>)
         else (Inr b, w\<lparr>bookings := map (\<lambda>x. if bk_id x = bk_id b then b else x) (bookings w)\<rparr>))"

definition Booking_save :: "world \<Rightarrow> booking document \<Rightarrow> (thrown + booking) \<times> world" where
  "Booking_save w d =
     (let errs = (if isNew d \<or> isModified d ''email'' then validate_email (bk_email (doc_of d)) else [])
      in if errs \<noteq> [] then (Inl (ValidationError errs), w)
         else (case BookingSchema_pre_save w d of
                 (Some e, w') \<Rightarrow> (Inl e, w')
               | (None, w') \<Rightarrow> Booking_write w' d))"

text \<open>
  \<open>Booking.create({eventId, slug, email})\<close>: \<open>slug\<close> is not a path of the schema and is
  dropped. The text of \<open>eventId\<close> is cast to an identifier; when the cast fails the
  errors of both paths are reported.
\<close>

definition Booking_create ::
  "host \<Rightarrow> world \<Rightarrow> jsstring \<Rightarrow> jsstring \<Rightarrow> (thrown + booking) \<times> world" where
  "Booking_create h w0 eventId email =
     (let w = record_effect BookingCreate w0
      in (case castObjectId h eventId of
            Cast x \<Rightarrow>
              Booking_save w
                \<lparr>doc_of = \<lparr>bk_id = newObjectId h (length (bookings w)), bk_eventId = x,
                           bk_email = email_setters email,
                           bk_createdAt = clock h, bk_updatedAt = clock h\<rparr>,
                 isNew = True, modifiedPaths = [''eventId'', ''email'']\<rparr>
          | v \<Rightarrow> (Inl (ValidationError (validate_eventId v @ validate_email (email_setters email))), w)))"

section \<open>The booking action\<close>

text \<open>
  The value of the action: \<open>{success: true, booking}\<close> or \<open>{success: false, error}\<close>.
  \<open>Booking.create\<close> resolves to a document. \<open>lean\<close> is a method of the queries of the
  document library, not of its documents, so \<open>(await Booking.create(...)).lean()\<close> calls
  \<open>undefined\<close>, which throws a TypeError; the \<open>catch\<close> of the action receives it.
\<close>

datatype booking_result = Success booking | Failure thrown

definition Document_lean :: "booking \<Rightarrow> thrown + booking" where
  "Document_lean b = Inl (TypeError (js ''(intermediate value).lean is not a function''))"

definition createBooking ::
  "host \<Rightarrow> world \<Rightarrow> jsstring \<Rightarrow> jsstring \<Rightarrow> jsstring \<Rightarrow> booking_result \<times> world" where
  "createBooking h w0 eventId slug email =
     (let w = record_effect Connect w0
      in (case connectDB h of
            Some e \<Rightarrow> (Failure e, w)
          | None \<Rightarrow>
              (case Booking_create h w eventId email of
                 (Inl e, w') \<Rightarrow> (Failure e, w')
               | (Inr b, w') \<Rightarrow>
                   (case Document_lean b of
                      Inl e \<Rightarrow> (Failure e, w')
                    | Inr booking \<Rightarrow> (Success booking, w')))))"

text \<open>
  The other version of the action in the repository takes \<open>{eventId, email}\<close>, does not
  call \<open>lean\<close> and returns \<open>{success: true}\<close> or \<open>{success: false}\<close>.
\<close>

definition createBooking_plain :: "host \<Rightarrow> world \<Rightarrow> jsstring \<Rightarrow> jsstring \<Rightarrow> bool \<times> world" where
  "createBooking_plain h w0 eventId email =
     (let w = record_effect Connect w0
      in (case connectDB h of
            Some e \<Rightarrow> (False, w)
          | None \<Rightarrow>
              (case Booking_create h w eventId email of
                 (Inl e, w') \<Rightarrow> (False, w')
               | (Inr b, w') \<Rightarrow> (True, w'))))"

section \<open>The event-creation handler\<close>

text \<open>
  A request carries a multipart form: its entries in order, each a text or a file, or
  the error \<open>req.formData()\<close> rejects with. \<open>formData.get\<close> gives the first entry of a
  name, \<open>Object.fromEntries\<close> keeps the last one.
\<close>

datatype entry = Text jsstring | File bytes

record request =
  formData :: "thrown + (jsstring \<times> entry) list"

definition form_get :: "(jsstring \<times> entry) list \<Rightarrow> string \<Rightarrow> entry option" where
  "form_get form name = map_of form (js name)"

definition fromEntries :: "(jsstring \<times> entry) list \<Rightarrow> string \<Rightarrow> entry option" where
  "fromEntries form name = map_of (rev form) (js name)"

text \<open>
  \<open>!file\<close> holds for \<open>null\<close> and for the empty text. \<open>JSON.parse\<close> turns its argument
  into a string first. A text entry is a string for the document library, a file is
  not.
\<close>

definition falsy :: "entry option \<Rightarrow> bool" where
  "falsy v = (case v of None \<Rightarrow> True | Some (Text s) \<Rightarrow> s = [] | Some (File b) \<Rightarrow> False)"

definition as_string :: "entry option \<Rightarrow> jsstring" where
  "as_string v =
     (case v of None \<Rightarrow> js ''null'' | Some (Text s) \<Rightarrow> s | Some (File b) \<Rightarrow> js ''[object File]'')"

definition entry_cast :: "entry option \<Rightarrow> jsstring cast" where
  "entry_cast v = (case v of None \<Rightarrow> Absent | Some (Text s) \<Rightarrow> Cast s | Some (File b) \<Rightarrow> Uncastable)"

text \<open>The responses. \<open>error_field\<close> is \<open>e instanceof Error ? e.message : 'Unknown'\<close>.\<close>

datatype error_field = MessageOf thrown | Unknown

datatype body =
    Message jsstring
  | MessageEvent jsstring event
  | MessageError jsstring error_field

record response =
  status :: nat
  body :: body

definition creation_failed :: "thrown \<Rightarrow> response" where
  "creation_failed e =
     \<lparr>status = 500,
      body = MessageError (js ''Event Creation Failed'')
               (if instanceof_Error e then MessageOf e else Unknown)\<rparr>"

definition image_required :: response where
  "image_required = \<lparr>status = 400, body = Message (js ''Image file is required'')\<rparr>"

definition event_created :: "event \<Rightarrow> response" where
  "event_created e = \<lparr>status = 201, body = MessageEvent (js ''Event Created Successfully'') e\<rparr>"

text \<open>
  The object given to \<open>Event.create\<close>: the entries of the form, \<open>image\<close> replaced by the
  URL of the upload, \<open>tags\<close> and \<open>agenda\<close> replaced by the parsed values.
\<close>

definition create_argument ::
  "host \<Rightarrow> (jsstring \<times> entry) list \<Rightarrow> upload_result \<Rightarrow> json \<Rightarrow> json \<Rightarrow> event_input" where
  "create_argument h form uploadResult tags agenda =
     \<lparr>in_title = entry_cast (fromEntries form ''title''),
      in_slug = entry_cast (fromEntries form ''slug''),
      in_description = entry_cast (fromEntries form ''description''),
      in_overview = entry_cast (fromEntries form ''overview''),
      in_image = Cast (secure_url uploadResult),
      in_venue = entry_cast (fromEntries form ''venue''),
      in_location = entry_cast (fromEntries form ''location''),
      in_date = entry_cast (fromEntries form ''date''),
      in_time = entry_cast (fromEntries form ''time''),
      in_mode = entry_cast (fromEntries form ''mode''),
      in_audience = entry_cast (fromEntries form ''audience''),
      in_agenda = castStrings h agenda,
      in_organizer = entry_cast (fromEntries form ''organizer''),
      in_tags = castStrings h tags\<rparr>"

text \<open>
  The handler, statement by statement; every \<open>Inl\<close> is a throw that the outer \<open>catch\<close>
  turns into the response 500. \<open>Object.fromEntries\<close> does not throw on the entries of
  a form, so the inner \<open>catch\<close> with its response 400 is never entered. The two calls
  of \<open>JSON.parse\<close> stand outside the inner \<open>try\<close>. A non-empty text given as \<open>image\<close>
  passes the test \<open>!file\<close> and has no method \<open>arrayBuffer\<close>.
\<close>

definition upload_and_create ::
  "host \<Rightarrow> world \<Rightarrow> (jsstring \<times> entry) list \<Rightarrow> json \<Rightarrow> json \<Rightarrow> bytes \<Rightarrow> response \<times> world" where
  "upload_and_create h w form tags agenda buffer =
     (case upload_stream h buffer of
        Inl e \<Rightarrow> (creation_failed e, record_effect (UploadSettled False) w)
      | Inr uploadResult \<Rightarrow>
          (case Event_create h (record_effect (UploadSettled True) w)
                  (create_argument h form uploadResult tags agenda) of
             (Inl e, w') \<Rightarrow> (creation_failed e, w')
           | (Inr createdEvent, w') \<Rightarrow> (event_created createdEvent, w')))"

definition parse_and_upload ::
  "host \<Rightarrow> world \<Rightarrow> (jsstring \<times> entry) list \<Rightarrow> entry \<Rightarrow> response \<times> world" where
  "parse_and_upload h w form file =
     (case JSON_parse h (as_string (form_get form ''tags'')) of
        Inl e \<Rightarrow> (creation_failed e, w)
      | Inr tags \<Rightarrow>
          (case JSON_parse h (as_string (form_get form ''agenda'')) of
             Inl e \<Rightarrow> (creation_failed e, w)
           | Inr agenda \<Rightarrow>
               (case file of
                  Text s \<Rightarrow>
                    (creation_failed (TypeError (js ''file.arrayBuffer is not a function'')), w)
                | File buffer \<Rightarrow> upload_and_create h w form tags agenda buffer)))"

definition POST :: "host \<Rightarrow> world \<Rightarrow> request \<Rightarrow> response \<times> world" where
  "POST h w0 req =
     (let w = record_effect Connect w0
      in (case connectDB h of
            Some e \<Rightarrow> (creation_failed e, w)
          | None \<Rightarrow>
              (case formData req of
                 Inl e \<Rightarrow> (creation_failed e, w)
               | Inr form \<Rightarrow>
                   (case form_get form ''image'' of
                      None \<Rightarrow> (image_required, w)
                    | Some file \<Rightarrow>
                        if falsy (Some file) then (image_required, w)
                        else parse_and_upload h w form file))))"

section \<open>Auxiliary notions of the claims\<close>

text \<open>
  A title with no ASCII letter or digit, and a title that has in addition neither of
  the two code units whose lower case holds an ASCII letter. \<open>new_effects\<close> is what a
  run has added to the trace.
\<close>

definition is_ascii_alnum :: "nat \<Rightarrow> bool" where
  "is_ascii_alnum c = (is_upper_AZ c \<or> is_lower_az c \<or> is_digit c)"


definition slugless :: "jsstring \<Rightarrow> bool" where
  "slugless t = list_all (\<lambda>c. \<not> is_ascii_alnum c \<and> c \<noteq> 304 \<and> c \<noteq> 8490) t"

definition new_effects :: "world \<Rightarrow> world \<Rightarrow> effect list" where
  "new_effects w w' = drop (length (effects w)) (effects w')"

section \<open>A sample host, store and request\<close>

text \<open>
  Concrete collaborators on which the functions above are evaluated: a host in UTC
  whose connection succeeds, whose \<open>JSON.parse\<close> knows the texts \<open>[1]\<close> and \<open>null\<close> and
  rejects every other text, whose document library casts the array of the number 1 to
  the array of the string \<open>1\<close> and a text of 24 hexadecimal digits to an identifier,
  and whose upload succeeds; the same host with an upload that rejects; an empty store
  and a store with one event; the arguments of \<open>Event.create\<close> and the form of a request
  with a given title and a given text for \<open>tags\<close>.
\<close>

definition sample_JSON_parse :: "jsstring \<Rightarrow> thrown + json" where
  "sample_JSON_parse s =
     (if s = js ''[1]'' then Inr (JArray [JNumber (js ''1'')])
      else if s = js ''null'' then Inr JNull
      else Inl (SyntaxError (js ''Unexpected token'')))"

definition sample_castStrings :: "json \<Rightarrow> jsstring list cast" where
  "sample_castStrings j =
     (case j of
        JNull \<Rightarrow> Absent
      | JArray [JNumber s] \<Rightarrow> Cast [s]
      | _ \<Rightarrow> Uncastable)"

definition is_hex :: "nat \<Rightarrow> bool" where
  "is_hex c = (is_digit c \<or> (97 \<le> c \<and> c \<le> 102) \<or> (65 \<le> c \<and> c \<le> 70))"

definition sample_castObjectId :: "jsstring \<Rightarrow> objectId cast" where
  "sample_castObjectId s =
     (if s = [] then Absent
      else if length s = 24 \<and> list_all is_hex s then Cast (toLowerCase s)
      else Uncastable)"

definition sample_host :: host where
  "sample_host =
     \<lparr>connectDB = None,
      Date_parse = host_parse 0,
      JSON_parse = sample_JSON_parse,
      castStrings = sample_castStrings,
      castObjectId = sample_castObjectId,
      upload_stream = (\<lambda>b. Inr \<lparr>secure_url = js ''https://res.cloudinary.com/a.png''\<rparr>),
      newObjectId = (\<lambda>n. replicate 23 48 @ [48 + n mod 10]),
      clock = 0\<rparr>"

definition failing_upload_host :: host where
  "failing_upload_host = sample_host\<lparr>upload_stream := (\<lambda>b. Inl NonError)\<rparr>"

definition empty_world :: world where
  "empty_world = \<lparr>events = [], bookings = [], effects = []\<rparr>"

definition sample_event :: event where
  "sample_event =
     \<lparr>ev_id = js ''000000000000000000000000'',
      ev_title = js ''Hello, World!!! 2024'',
      ev_slug = Some (js ''hello-world-2024''),
      ev_description = js ''d'',
      ev_overview = js ''o'',
      ev_image = js ''https://res.cloudinary.com/a.png'',
      ev_venue = js ''v'',
      ev_location = js ''l'',
      ev_date = js ''2024-03-05'',
      ev_time = js ''14:30'',
      ev_mode = js ''online'',
      ev_audience = js ''a'',
      ev_agenda = [js ''1''],
      ev_organizer = js ''g'',
      ev_tags = [js ''1''],
      ev_createdAt = 0,
      ev_updatedAt = 0\<rparr>"

definition sample_world :: world where
  "sample_world = \<lparr>events = [sample_event], bookings = [], effects = []\<rparr>"

definition sample_input :: "jsstring \<Rightarrow> event_input" where
  "sample_input t =
     \<lparr>in_title = Cast t,
      in_slug = Absent,
      in_description = Cast (js ''d''),
      in_overview = Cast (js ''o''),
      in_image = Cast (js ''https://res.cloudinary.com/a.png''),
      in_venue = Cast (js ''v''),
      in_location = Cast (js ''l''),
      in_date = Cast (js ''March 5, 2024''),
      in_time = Cast (js ''2:30 PM''),
      in_mode = Cast (js ''online''),
      in_audience = Cast (js ''a''),
      in_agenda = Cast [js ''1''],
      in_organizer = Cast (js ''g''),
      in_tags = Cast [js ''1'']\<rparr>"

definition sample_form :: "jsstring \<Rightarrow> (jsstring \<times> entry) list" where
  "sample_form tags =
     [(js ''title'', Text (js ''Hello, World!!! 2024'')),
      (js ''description'', Text (js ''d'')),
      (js ''overview'', Text (js ''o'')),
      (js ''venue'', Text (js ''v'')),
      (js ''location'', Text (js ''l'')),
      (js ''date'', Text (js ''March 5, 2024'')),
      (js ''time'', Text (js ''2:30 PM'')),
      (js ''mode'', Text (js ''online'')),
      (js ''audience'', Text (js ''a'')),
      (js ''organizer'', Text (js ''g'')),
      (js ''tags'', Text tags),
      (js ''agenda'', Text (js ''[1]'')),
      (js ''image'', File [137, 80, 78, 71])]"

section \<open>Properties of generateSlug\<close>

subsection \<open>The regular-expression pipeline computes the specified slug\<close>

lemma replace_class_empty: "replace_class P [] s = filter (\<lambda>c. \<not> P c) s"
  by (induction s) (simp_all add: replace_class_def)

lemma replace_plus_skip: "P c \<Longrightarrow> P d \<Longrightarrow> replace_plus P r (c # d # cs) = replace_plus P r (d # cs)"
  by simp

lemma replace_plus_collapse: "replace_plus P [h] s = collapse_runs P h s"
proof (induction P h s rule: collapse_runs.induct)
  case (1 P h)
  then show ?case by simp
next
  case (2 P h c)
  then show ?case by simp
next
  case (3 P h c d cs)
  show ?case
  proof (cases "P c")
    case c: True
    show ?thesis
    proof (cases "P d")
      case True
      with c 3 show ?thesis by (simp del: replace_plus.simps add: replace_plus_skip)
    next
      case False
      with c 3 show ?thesis by simp
    qed
  next
    case False
    with 3 show ?thesis by simp
  qed
qed

lemma no_run_collapse: "no_run (collapse_runs (\<lambda>c. c = hyphen) hyphen s)"
proof (induction "\<lambda>c. c = hyphen" hyphen s rule: collapse_runs.induct)
  case 1 show ?case by simp
next
  case (2 c) show ?case by simp
next
  case (3 c d cs)
  then show ?case by (cases cs) (auto simp: successively_Cons)
qed

lemma drop_last_hyphen_strip:
  "no_run s \<Longrightarrow> drop_last_hyphen s = rev (dropWhile (\<lambda>c. c = hyphen) (rev s))"
proof (cases s rule: rev_cases)
  case Nil
  then show ?thesis by (simp add: drop_last_hyphen_def)
next
  case (snoc ys y)
  assume nr: "no_run s"
  show ?thesis
  proof (cases "y = hyphen")
    case False
    with snoc show ?thesis by (simp add: drop_last_hyphen_def)
  next
    case True
    with snoc nr have "ys = [] \<or> last ys \<noteq> hyphen"
      by (auto simp: successively_append_iff)
    then have "dropWhile (\<lambda>c. c = hyphen) (rev ys) = rev ys"
      by (cases ys rule: rev_cases) auto
    with snoc True show ?thesis by (simp add: drop_last_hyphen_def)
  qed
qed

lemma replace_edge_strip:
  assumes "no_run s"
  shows "replace_edge_hyphens s = strip_hyphens s"
proof (cases s)
  case Nil
  then show ?thesis by (simp add: replace_edge_hyphens_def strip_hyphens_def)
next
  case (Cons c cs)
  show ?thesis
  proof (cases "c = hyphen")
    case False
    with Cons assms show ?thesis
      by (simp add: replace_edge_hyphens_def strip_hyphens_def drop_last_hyphen_strip)
  next
    case True
    with Cons assms have cs: "no_run cs" and "cs = [] \<or> hd cs \<noteq> hyphen"
      by (auto simp: successively_Cons)
    then have "dropWhile (\<lambda>c. c = hyphen) cs = cs"
      by (cases cs) auto
    with Cons True cs show ?thesis
      by (simp add: replace_edge_hyphens_def strip_hyphens_def drop_last_hyphen_strip)
  qed
qed

lemma not_slug_unit_iff: "(\<not> not_slug_unit c) = slug_unit c"
  by (simp add: not_slug_unit_def slug_unit_def)

lemma generateSlug_spec: "generateSlug title = slug_spec title"
proof -
  have "replace_edge_hyphens (collapse_runs (\<lambda>c. c = hyphen) hyphen s) =
        strip_hyphens (collapse_runs (\<lambda>c. c = hyphen) hyphen s)" for s
    by (rule replace_edge_strip [OF no_run_collapse])
  then show ?thesis
    by (simp add: generateSlug_def slug_spec_def replace_class_empty not_slug_unit_iff
        replace_plus_collapse)
qed

subsection \<open>Slugs are fixed points\<close>

lemma set_collapse_runs: "set (collapse_runs P h s) \<subseteq> {c \<in> set s. \<not> P c} \<union> {h}"
  by (induction P h s rule: collapse_runs.induct) auto

lemma set_strip_hyphens: "set (strip_hyphens s) \<subseteq> set s"
  by (auto simp: strip_hyphens_def dest!: set_dropWhileD)

lemma no_run_rev: "no_run (rev s) = no_run s"
proof -
  have "(\<lambda>x y. \<not> (y = hyphen \<and> x = hyphen)) = (\<lambda>a b. \<not> (a = hyphen \<and> b = hyphen))"
    by (auto simp: fun_eq_iff)
  then show ?thesis by (simp only: successively_rev)
qed

lemma no_run_dropWhile: "no_run s \<Longrightarrow> no_run (dropWhile Q s)"
proof -
  assume "no_run s"
  then have "no_run (takeWhile Q s @ dropWhile Q s)" by simp
  then show ?thesis unfolding successively_append_iff by blast
qed

lemma no_run_strip: "no_run s \<Longrightarrow> no_run (strip_hyphens s)"
  unfolding strip_hyphens_def
  by (intro no_run_rev [THEN iffD2] no_run_dropWhile)

lemma dropWhile_last: "dropWhile Q s \<noteq> [] \<Longrightarrow> last (dropWhile Q s) = last s"
  by (induction s) (auto split: if_splits)

lemma strip_hyphens_ends:
  "strip_hyphens s = [] \<or> (hd (strip_hyphens s) \<noteq> hyphen \<and> last (strip_hyphens s) \<noteq> hyphen)"
proof (cases "strip_hyphens s = []")
  case True
  then show ?thesis by simp
next
  case False
  define d where "d = dropWhile (\<lambda>c. c = hyphen) s"
  define e where "e = dropWhile (\<lambda>c. c = hyphen) (rev d)"
  from False have e: "e \<noteq> []" by (simp add: strip_hyphens_def e_def d_def)
  then have d: "d \<noteq> []" by (auto simp: e_def)
  have "hd e \<noteq> hyphen" using e hd_dropWhile [of "\<lambda>c. c = hyphen" "rev d"] by (simp add: e_def)
  moreover have "hd d \<noteq> hyphen" using d hd_dropWhile [of "\<lambda>c. c = hyphen" s] by (simp add: d_def)
  moreover have "last e = last (rev d)" using e unfolding e_def by (rule dropWhile_last)
  moreover have "strip_hyphens s = rev e" by (simp add: strip_hyphens_def e_def d_def)
  ultimately show ?thesis using e d by (simp add: hd_rev last_rev)
qed

lemma slug_out_classes:
  "slug_out c \<Longrightarrow> \<not> is_space c \<and> \<not> is_upper_AZ c \<and> c \<noteq> 304 \<and> c \<noteq> 8490 \<and> slug_unit c"
  by (auto simp: slug_out_def slug_unit_def is_space_def is_upper_AZ_def is_lower_az_def
      is_digit_def hyphen_def)

lemma slug_spec_units: "c \<in> set (slug_spec t) \<Longrightarrow> slug_out c"
proof -
  assume "c \<in> set (slug_spec t)"
  then have "c \<in> set (collapse_runs (\<lambda>c. c = hyphen) hyphen
         (collapse_runs is_space hyphen (filter slug_unit (trim (toLowerCase t)))))"
    using set_strip_hyphens by (auto simp: slug_spec_def)
  then have "c = hyphen \<or> c \<in> set (collapse_runs is_space hyphen (filter slug_unit (trim (toLowerCase t))))"
    using set_collapse_runs [of "\<lambda>c. c = hyphen" hyphen] by blast
  then have "c = hyphen \<or> (slug_unit c \<and> \<not> is_space c)"
    using set_collapse_runs [of is_space hyphen "filter slug_unit (trim (toLowerCase t))"] by auto
  then show ?thesis by (auto simp: slug_out_def slug_unit_def)
qed

lemma toLowerCase_id: "\<forall>c \<in> set s. slug_out c \<Longrightarrow> toLowerCase s = s"
  by (induction s) (auto simp: toLowerCase_def lower_unit_def dest: slug_out_classes)

lemma dropWhile_none: "\<forall>c \<in> set s. \<not> Q c \<Longrightarrow> dropWhile Q s = s"
  by (cases s) auto

lemma trim_id: "\<forall>c \<in> set s. \<not> is_space c \<Longrightarrow> trim s = s"
  by (simp add: trim_def dropWhile_none)

lemma collapse_runs_none: "\<forall>c \<in> set s. \<not> P c \<Longrightarrow> collapse_runs P h s = s"
  by (induction P h s rule: collapse_runs.induct) auto

lemma collapse_hyphens_id: "no_run s \<Longrightarrow> collapse_runs (\<lambda>c. c = hyphen) hyphen s = s"
  by (induction "\<lambda>c. c = hyphen" hyphen s rule: collapse_runs.induct) auto

lemma strip_hyphens_id:
  "s = [] \<or> (hd s \<noteq> hyphen \<and> last s \<noteq> hyphen) \<Longrightarrow> strip_hyphens s = s"
proof (cases s)
  case Nil
  then show ?thesis by (simp add: strip_hyphens_def)
next
  case (Cons c cs)
  assume "s = [] \<or> (hd s \<noteq> hyphen \<and> last s \<noteq> hyphen)"
  with Cons have c: "c \<noteq> hyphen" and l: "last (c # cs) \<noteq> hyphen" by auto
  from l have "dropWhile (\<lambda>c. c = hyphen) (rev (c # cs)) = rev (c # cs)"
    by (cases "c # cs" rule: rev_cases) auto
  with c Cons show ?thesis by (simp add: strip_hyphens_def)
qed

lemma slug_spec_fixed:
  assumes u: "\<forall>c \<in> set s. slug_out c" and n: "no_run s"
    and e: "s = [] \<or> (hd s \<noteq> hyphen \<and> last s \<noteq> hyphen)"
  shows "slug_spec s = s"
proof -
  from u have sp: "\<forall>c \<in> set s. \<not> is_space c" and su: "\<forall>c \<in> set s. slug_unit c"
    using slug_out_classes by blast+
  have "toLowerCase s = s" using u by (rule toLowerCase_id)
  moreover have "trim s = s" using sp by (rule trim_id)
  moreover have "filter slug_unit s = s" using su by (simp add: filter_id_conv)
  moreover have "collapse_runs is_space hyphen s = s" using sp by (rule collapse_runs_none)
  moreover have "collapse_runs (\<lambda>c. c = hyphen) hyphen s = s" using n by (rule collapse_hyphens_id)
  moreover have "strip_hyphens s = s" using e by (rule strip_hyphens_id)
  ultimately show ?thesis by (simp add: slug_spec_def)
qed

lemma slug_spec_idem: "slug_spec (slug_spec t) = slug_spec t"
proof (rule slug_spec_fixed)
  show "\<forall>c \<in> set (slug_spec t). slug_out c" using slug_spec_units by blast
  show "no_run (slug_spec t)" unfolding slug_spec_def by (rule no_run_strip [OF no_run_collapse])
  show "slug_spec t = [] \<or> (hd (slug_spec t) \<noteq> hyphen \<and> last (slug_spec t) \<noteq> hyphen)"
    unfolding slug_spec_def by (rule strip_hyphens_ends)
qed

subsection \<open>Claims about generateSlug\<close>

lemmas unit_defs = is_digit_def is_lower_az_def is_upper_AZ_def is_space_def hyphen_def
  colon_def

lemmas slug_defs = generateSlug_def js_def toLowerCase_def lower_unit_def trim_def
  replace_class_def not_slug_unit_def replace_edge_hyphens_def drop_last_hyphen_def

lemma generateSlug_hello: "generateSlug (js ''Hello, World!!! 2024'') = js ''hello-world-2024''"
  by (simp add: slug_defs unit_defs)

text \<open>
  C5. For every title, \<open>generateSlug\<close> yields what the six steps of the specification
  yield (lower-case, trim, delete what is outside \<open>[a-z0-9\s-]\<close>, one hyphen for each
  white-space run, one hyphen for each run of hyphens, no hyphen at either end), and
  the title \<open>Hello, World!!! 2024\<close> yields \<open>hello-world-2024\<close>.
\<close>

theorem generateSlug_meets_spec:
  "generateSlug title = slug_spec title
   \<and> generateSlug (js ''Hello, World!!! 2024'') = js ''hello-world-2024''"
  using generateSlug_spec generateSlug_hello by simp

text \<open>
  C6. \<open>generateSlug\<close> is idempotent on its own output: applying it to a slug gives the
  slug back.
\<close>

theorem generateSlug_idempotent: "generateSlug (generateSlug t) = generateSlug t"
  by (simp add: generateSlug_spec slug_spec_idem)

section \<open>Properties of normalizeTime\<close>

lemmas time_defs = normalizeTime_def timeRegex_match_def match_hours_def match_period_def
  is_AM_PM_def to_24_hour_def parseInt_def digit_value_def toString_def padStart_def
  toUpperCase_def upper_unit_def trim_def js_def InvalidTimeFormat_def InvalidTimeValues_def

subsection \<open>Accepted texts are matched\<close>

lemma trim_padded:
  assumes w1: "list_all is_space w1" and w2: "list_all is_space w2"
    and c: "core \<noteq> []" "\<not> is_space (hd core)" "\<not> is_space (last core)"
  shows "trim (w1 @ core @ w2) = core"
proof -
  from c have "dropWhile is_space (core @ w2) = core @ w2"
    by (cases core) auto
  with w1 have 1: "dropWhile is_space (w1 @ core @ w2) = core @ w2"
    by (simp add: list_all_iff)
  from c have "dropWhile is_space (rev core) = rev core"
    by (cases core rule: rev_cases) auto
  with w2 have "dropWhile is_space (rev w2 @ rev core) = rev core"
    using dropWhile_append2 [of "rev w2" is_space "rev core"] by (simp add: list_all_iff)
  with 1 show ?thesis by (simp add: trim_def)
qed

lemma spelling_cases:
  "(ap, md) \<in> set am_pm_spellings \<Longrightarrow>
   \<exists>a m. ap = [a, m] \<and> (a = 65 \<or> a = 97 \<or> a = 80 \<or> a = 112) \<and> (m = 77 \<or> m = 109)"
  by (auto simp: am_pm_spellings_def js_def)

lemma match_period_empty: "match_period [] = Some None"
  by (simp add: match_period_def is_AM_PM_def)

lemma match_period_spelling:
  assumes "list_all is_space w" "(ap, md) \<in> set am_pm_spellings"
  shows "match_period (w @ ap) = Some (Some ap)"
proof -
  from assms(2) obtain a m where ap: "ap = [a, m]"
    and a: "a = 65 \<or> a = 97 \<or> a = 80 \<or> a = 112" and m: "m = 77 \<or> m = 109"
    using spelling_cases by blast
  from a have "\<not> is_space a" by (auto simp: is_space_def)
  with assms(1) ap have "dropWhile is_space (w @ ap) = ap"
    by (simp add: list_all_iff)
  moreover from a m ap have "is_AM_PM ap"
    by (auto simp: is_AM_PM_def upper_unit_def is_lower_az_def)
  ultimately show ?thesis by (simp add: match_period_def)
qed

lemma match_period_text:
  "period_ok p \<Longrightarrow> match_period (period_text p) = Some (map_option (fst \<circ> snd) p)"
  by (cases p) (auto simp: period_ok_def period_text_def match_period_empty match_period_spelling)

lemma colon_not_digit: "\<not> is_digit colon"
  by (simp add: is_digit_def colon_def)

lemma timeRegex_match_pattern:
  assumes h: "length h = 1 \<or> length h = 2" "list_all is_digit h"
    and m: "length m = 2" "list_all is_digit m" and p: "period_ok p"
  shows "timeRegex_match (h @ [colon] @ m @ period_text p) = Some (h, m, map_option (fst \<circ> snd) p)"
proof -
  from m obtain m1 m2 where mm: "m = [m1, m2]" "is_digit m1" "is_digit m2"
    by (cases m; cases "tl m") auto
  from h consider d where "h = [d]" "is_digit d" | d e where "h = [d, e]" "is_digit d" "is_digit e"
    by (cases h; cases "tl h") auto
  then show ?thesis
  proof cases
    case 1
    with mm p show ?thesis
      by (simp add: timeRegex_match_def match_hours_def colon_not_digit match_period_text)
  next
    case 2
    with mm p show ?thesis
      by (simp add: timeRegex_match_def match_hours_def match_period_text)
  qed
qed

lemma digit_not_space: "is_digit c \<Longrightarrow> \<not> is_space c"
  by (auto simp: is_digit_def is_space_def)

lemma pattern_core_ends:
  assumes h: "length h = 1 \<or> length h = 2" "list_all is_digit h"
    and m: "length m = 2" "list_all is_digit m" and p: "period_ok p"
  defines "core \<equiv> h @ [colon] @ m @ period_text p"
  shows "core \<noteq> [] \<and> \<not> is_space (hd core) \<and> \<not> is_space (last core)"
proof -
  from h have "h \<noteq> []" "is_digit (hd h)" by (cases h; auto)+
  then have 1: "\<not> is_space (hd core)" by (simp add: core_def digit_not_space)
  from m have mne: "m \<noteq> []" and "is_digit (last m)" by (cases m rule: rev_cases; auto)+
  then have lm: "\<not> is_space (last m)" by (simp add: digit_not_space)
  have "\<not> is_space (last core)"
  proof (cases p)
    case None
    with lm mne show ?thesis by (simp add: core_def period_text_def)
  next
    case (Some wa)
    obtain w ap md where wa: "wa = (w, ap, md)" by (cases wa)
    with Some p have "(ap, md) \<in> set am_pm_spellings" by (simp add: period_ok_def)
    then obtain a b where "ap = [a, b]" "b = 77 \<or> b = 109" using spelling_cases by blast
    with Some wa show ?thesis by (auto simp: core_def period_text_def is_space_def)
  qed
  with 1 show ?thesis by (simp add: core_def)
qed

lemma pad_two_digits: "0 \<le> i \<Longrightarrow> i \<le> 23 \<Longrightarrow> padStart 2 48 (toString i) = two_digits i"
proof -
  assume i: "0 \<le> i" "i \<le> 23"
  show ?thesis
  proof (cases "i < 10")
    case True
    with i have "decimal (nat i) = [48 + nat i]" by (simp add: decimal.simps)
    with i True show ?thesis by (simp add: padStart_def toString_def two_digits_def)
  next
    case False
    with i have "nat i div 10 < 10" by simp
    with False i have "decimal (nat i) = [48 + nat i div 10, 48 + nat i mod 10]"
      by (simp add: decimal.simps [of "nat i"] decimal.simps [of "nat i div 10"])
    with i show ?thesis by (simp add: padStart_def toString_def two_digits_def)
  qed
qed

lemma to_24_hour_spelling:
  "(ap, md) \<in> set am_pm_spellings \<Longrightarrow> to_24_hour x (Some (toUpperCase ap)) = hour24 x (Some md)"
  by (auto simp: am_pm_spellings_def js_def toUpperCase_def upper_unit_def is_lower_az_def
      to_24_hour_def)

lemma to_24_hour_period:
  "period_ok p \<Longrightarrow>
   to_24_hour x (map_option toUpperCase (map_option (fst \<circ> snd) p)) =
   hour24 x (map_option (snd \<circ> snd) p)"
  by (cases p) (auto simp: period_ok_def to_24_hour_spelling, simp add: to_24_hour_def)

lemma normalizeTime_pattern:
  assumes w: "list_all is_space w1" "list_all is_space w2"
    and h: "length h = 1 \<or> length h = 2" "list_all is_digit h"
    and m: "length m = 2" "list_all is_digit m" and p: "period_ok p"
  shows "normalizeTime (w1 @ h @ [colon] @ m @ period_text p @ w2) =
     (let hour = hour24 (parseInt h) (map_option (snd \<circ> snd) p)
      in if hour < 0 \<or> 23 < hour \<or> parseInt m < 0 \<or> 59 < parseInt m
         then Inl InvalidTimeValues
         else Inr (two_digits hour @ [colon] @ m))"
proof -
  define core where "core = h @ [colon] @ m @ period_text p"
  have "core \<noteq> [] \<and> \<not> is_space (hd core) \<and> \<not> is_space (last core)"
    unfolding core_def using h m p by (rule pattern_core_ends)
  with w have "trim (w1 @ core @ w2) = core" by (simp add: trim_padded)
  moreover have "timeRegex_match core = Some (h, m, map_option (fst \<circ> snd) p)"
    unfolding core_def using h m p by (rule timeRegex_match_pattern)
  ultimately have "normalizeTime (w1 @ core @ w2) =
     (let hour = hour24 (parseInt h) (map_option (snd \<circ> snd) p)
      in if hour < 0 \<or> 23 < hour \<or> parseInt m < 0 \<or> 59 < parseInt m
         then Inl InvalidTimeValues
         else Inr (two_digits hour @ [colon] @ m))"
    using p by (simp add: normalizeTime_def Let_def to_24_hour_period pad_two_digits)
  then show ?thesis by (simp add: core_def)
qed

subsection \<open>Matched texts are accepted\<close>

lemma trim_decompose:
  "\<exists>w1 w2. s = w1 @ trim s @ w2 \<and> list_all is_space w1 \<and> list_all is_space w2"
proof -
  define d where "d = dropWhile is_space s"
  define w1 where "w1 = takeWhile is_space s"
  define w2 where "w2 = rev (takeWhile is_space (rev d))"
  have "rev (takeWhile is_space (rev d) @ dropWhile is_space (rev d)) = rev (rev d)"
    by (simp only: takeWhile_dropWhile_id)
  then have "rev (dropWhile is_space (rev d)) @ rev (takeWhile is_space (rev d)) = d"
    by (simp only: rev_append rev_rev_ident)
  then have "d = trim s @ w2"
    unfolding trim_def w2_def d_def by (rule sym)
  moreover have "s = w1 @ d" by (simp add: w1_def d_def)
  moreover have "list_all is_space w1" by (auto simp: w1_def list_all_iff dest: set_takeWhileD)
  moreover have "list_all is_space w2" by (auto simp: w2_def list_all_iff dest: set_takeWhileD)
  ultimately show ?thesis by blast
qed

lemma upper_unit_A: "upper_unit a = 65 \<Longrightarrow> a = 65 \<or> a = 97"
  and upper_unit_P: "upper_unit a = 80 \<Longrightarrow> a = 80 \<or> a = 112"
  and upper_unit_M: "upper_unit a = 77 \<Longrightarrow> a = 77 \<or> a = 109"
  by (auto simp: upper_unit_def is_lower_az_def split: if_splits)

lemma is_AM_PM_spelling: "is_AM_PM r \<Longrightarrow> \<exists>md. (r, md) \<in> set am_pm_spellings"
proof -
  assume a: "is_AM_PM r"
  then obtain a m where r: "r = [a, m]"
    by (auto simp: is_AM_PM_def split: list.splits)
  with a have "a = 65 \<or> a = 97 \<or> a = 80 \<or> a = 112" "m = 77 \<or> m = 109"
    using upper_unit_A upper_unit_P upper_unit_M by (auto simp: is_AM_PM_def)
  with r show ?thesis by (auto simp: am_pm_spellings_def js_def)
qed

lemma match_period_Some:
  assumes "match_period r = Some q"
  shows "\<exists>p. period_ok p \<and> r = period_text p \<and> q = map_option (fst \<circ> snd) p"
proof (cases "is_AM_PM (dropWhile is_space r)")
  case True
  then obtain md where md: "(dropWhile is_space r, md) \<in> set am_pm_spellings"
    using is_AM_PM_spelling by blast
  define p where "p = Some (takeWhile is_space r, dropWhile is_space r, md)"
  from True assms have "q = Some (dropWhile is_space r)" by (simp add: match_period_def)
  moreover have "list_all is_space (takeWhile is_space r)"
    by (auto simp: list_all_iff dest: set_takeWhileD)
  ultimately have "period_ok p \<and> r = period_text p \<and> q = map_option (fst \<circ> snd) p"
    using md by (simp add: p_def period_ok_def period_text_def)
  then show ?thesis ..
next
  case False
  with assms have "r = []" "q = None" by (auto simp: match_period_def split: if_splits)
  then have "period_ok None \<and> r = period_text None \<and> q = map_option (fst \<circ> snd) None"
    by (simp add: period_ok_def period_text_def)
  then show ?thesis by blast
qed

lemma match_hours_Some:
  assumes "match_hours n s = Some (h, m, q)"
  shows "length h = n \<and> list_all is_digit h \<and> length m = 2 \<and> list_all is_digit m
         \<and> (\<exists>r. s = h @ [colon] @ m @ r \<and> match_period r = Some q)"
proof -
  have t: "length (take n s) = n \<and> list_all is_digit (take n s)"
  proof (rule ccontr)
    assume "\<not> ?thesis"
    then have "match_hours n s = None" by (auto simp: match_hours_def)
    with assms show False by simp
  qed
  then have mh: "match_hours n s =
      (case drop n s of
         c # m1 # m2 # r \<Rightarrow>
           if c = colon \<and> is_digit m1 \<and> is_digit m2
           then map_option (\<lambda>p. (take n s, [m1, m2], p)) (match_period r)
           else None
       | _ \<Rightarrow> None)"
    by (simp add: match_hours_def)
  obtain c m1 m2 r where d: "drop n s = c # m1 # m2 # r"
  proof (cases "drop n s")
    case Nil
    with mh assms show ?thesis by simp
  next
    case 1: (Cons c r1)
    show ?thesis
    proof (cases r1)
      case Nil
      with 1 mh assms show ?thesis by simp
    next
      case 2: (Cons m1 r2)
      show ?thesis
      proof (cases r2)
        case Nil
        with 1 2 mh assms show ?thesis by simp
      next
        case (Cons m2 r)
        with 1 2 that show ?thesis by simp
      qed
    qed
  qed
  have c: "c = colon \<and> is_digit m1 \<and> is_digit m2"
  proof (rule ccontr)
    assume "\<not> ?thesis"
    with mh d have "match_hours n s = None" by simp
    with assms show False by simp
  qed
  with mh d assms have "map_option (\<lambda>p. (take n s, [m1, m2], p)) (match_period r) = Some (h, m, q)"
    by simp
  then have hm: "h = take n s" "m = [m1, m2]" "match_period r = Some q" by auto
  have "take n s @ drop n s = s" by simp
  then have "s = h @ [colon] @ m @ r" unfolding d hm using c by simp
  then have "\<exists>r. s = h @ [colon] @ m @ r \<and> match_period r = Some q"
    using hm(3) by blast
  moreover have "length h = n \<and> list_all is_digit h" using t hm(1) by simp
  moreover have "length m = 2 \<and> list_all is_digit m" using c hm(2) by simp
  ultimately show ?thesis by blast
qed

lemma timeRegex_match_Some:
  assumes "timeRegex_match s = Some (h, m, q)"
  shows "\<exists>p. s = h @ [colon] @ m @ period_text p \<and> (length h = 1 \<or> length h = 2)
         \<and> list_all is_digit h \<and> length m = 2 \<and> list_all is_digit m \<and> period_ok p
         \<and> q = map_option (fst \<circ> snd) p"
proof -
  from assms obtain n where n: "n = 1 \<or> n = 2" and "match_hours n s = Some (h, m, q)"
    by (auto simp: timeRegex_match_def split: option.splits)
  then have 1: "length h = n \<and> list_all is_digit h \<and> length m = 2 \<and> list_all is_digit m"
    and "\<exists>r. s = h @ [colon] @ m @ r \<and> match_period r = Some q"
    using match_hours_Some by blast+
  then obtain r where r: "s = h @ [colon] @ m @ r" "match_period r = Some q" by blast
  then obtain p where "period_ok p" "r = period_text p" "q = map_option (fst \<circ> snd) p"
    using match_period_Some by blast
  with 1 n r show ?thesis by auto
qed

lemma time_pattern_if_match:
  assumes "timeRegex_match (trim s) = Some r"
  shows "time_pattern s"
proof -
  obtain h m q where "r = (h, m, q)" by (cases r)
  with assms obtain p where p: "trim s = h @ [colon] @ m @ period_text p"
    "length h = 1 \<or> length h = 2" "list_all is_digit h" "length m = 2" "list_all is_digit m"
    "period_ok p"
    using timeRegex_match_Some by blast
  obtain w1 w2 where w: "s = w1 @ trim s @ w2" "list_all is_space w1" "list_all is_space w2"
    using trim_decompose by blast
  from w(1) p(1) have "s = w1 @ h @ [colon] @ m @ period_text p @ w2" by simp
  with w p show ?thesis unfolding time_pattern_def by blast
qed

lemma normalizeTime_no_pattern: "\<not> time_pattern s \<Longrightarrow> normalizeTime s = Inl InvalidTimeFormat"
  using time_pattern_if_match [of s] by (auto simp: normalizeTime_def split: option.splits)

lemma time_errors_distinct: "InvalidTimeValues \<noteq> InvalidTimeFormat"
  by (simp add: InvalidTimeValues_def InvalidTimeFormat_def js_def)

lemma normalizeTime_pattern_not_format:
  assumes "time_pattern s"
  shows "normalizeTime s \<noteq> Inl InvalidTimeFormat"
proof -
  from assms obtain w1 h m p w2 where s: "s = w1 @ h @ [colon] @ m @ period_text p @ w2"
    and c: "list_all is_space w1" "list_all is_space w2" "length h = 1 \<or> length h = 2"
      "list_all is_digit h" "length m = 2" "list_all is_digit m" "period_ok p"
    unfolding time_pattern_def by blast
  from c have "normalizeTime s = Inl InvalidTimeValues \<or> (\<exists>t. normalizeTime s = Inr t)"
    unfolding s by (simp only: normalizeTime_pattern Let_def split: if_splits) simp
  with time_errors_distinct show ?thesis by auto
qed

subsection \<open>Claims about normalizeTime\<close>

lemma normalizeTime_230pm: "normalizeTime (js ''2:30 PM'') = Inr (js ''14:30'')"
  by (simp add: time_defs unit_defs decimal.simps)

lemma normalizeTime_12am: "normalizeTime (js ''12:00 AM'') = Inr (js ''00:00'')"
  by (simp add: time_defs unit_defs decimal.simps)

lemma normalizeTime_2500: "normalizeTime (js ''25:00'') = Inl InvalidTimeValues"
  by (simp add: time_defs unit_defs decimal.simps)

lemma time_pattern_2500: "time_pattern (js ''25:00'')"
proof (rule time_pattern_if_match)
  show "timeRegex_match (trim (js ''25:00'')) = Some (js ''25'', js ''00'', None)"
    by (simp add: time_defs unit_defs decimal.simps)
qed

text \<open>
  C4. A text made of an hour of one or two digits, a colon, a minute of two digits and
  optionally AM or PM in any mix of cases, with white space tolerated around the parts,
  is converted to the 24-hour clock (12 AM is 00, 12 PM is 12, h PM is h + 12 below 12);
  the result is the zero-padded hour, a colon and the minute as given, and the call
  fails with InvalidTimeValues exactly when the converted hour is outside 0 to 23 or
  the minute outside 0 to 59. \<open>2:30 PM\<close> gives \<open>14:30\<close> and \<open>12:00 AM\<close> gives \<open>00:00\<close>.
\<close>

theorem normalizeTime_accepted:
  assumes "list_all is_space w1" and "list_all is_space w2"
    and "length h = 1 \<or> length h = 2" and "list_all is_digit h"
    and "length m = 2" and "list_all is_digit m"
    and "period_ok p"
  shows "normalizeTime (w1 @ h @ [colon] @ m @ period_text p @ w2) =
           (let hour = hour24 (parseInt h) (map_option (snd \<circ> snd) p)
            in if hour < 0 \<or> 23 < hour \<or> parseInt m < 0 \<or> 59 < parseInt m
               then Inl InvalidTimeValues
               else Inr (two_digits hour @ [colon] @ m))
         \<and> hour24 12 (Some AM) = 0 \<and> hour24 12 (Some PM) = 12
         \<and> (x < 12 \<longrightarrow> hour24 x (Some PM) = x + 12)
         \<and> normalizeTime (js ''2:30 PM'') = Inr (js ''14:30'')
         \<and> normalizeTime (js ''12:00 AM'') = Inr (js ''00:00'')"
  using normalizeTime_pattern [OF assms] normalizeTime_230pm normalizeTime_12am by simp

theorem normalizeTime_accepted_witness:
  "list_all is_space (js '' '') \<and> list_all is_space []
   \<and> (length (js ''7'') = 1 \<or> length (js ''7'') = 2) \<and> list_all is_digit (js ''7'')
   \<and> length (js ''05'') = 2 \<and> list_all is_digit (js ''05'')
   \<and> period_ok (Some (js '' '', js ''pm'', PM))
   \<and> normalizeTime (js '' 7:05 pm'') = Inr (js ''19:05'')
   \<and> (7::int) < 12 \<and> hour24 7 (Some PM) = 19"
proof -
  have 1: "list_all is_space (js '' '')" and 2: "list_all is_space []"
    and 3: "length (js ''7'') = 1 \<or> length (js ''7'') = 2" and 4: "list_all is_digit (js ''7'')"
    and 5: "length (js ''05'') = 2" and 6: "list_all is_digit (js ''05'')"
    and 7: "period_ok (Some (js '' '', js ''pm'', PM))"
    by (simp_all add: js_def unit_defs period_ok_def am_pm_spellings_def)
  from normalizeTime_accepted [OF 1 2 3 4 5 6 7, of 7] 1 2 3 4 5 6 7
  show ?thesis
    by (simp add: js_def period_text_def colon_def two_digits_def parseInt_def digit_value_def
        is_digit_def)
qed

text \<open>
  C3 as the specification states it fails: \<open>25:00\<close> does not fail with
  InvalidTimeFormat.
\<close>

theorem normalizeTime_2500_not_format:
  "normalizeTime (js ''25:00'') \<noteq> Inl InvalidTimeFormat"
  using normalizeTime_2500 time_errors_distinct by simp

text \<open>
  C3, amended. \<open>25:00\<close> has the accepted shape (a two-digit hour, a colon, a two-digit
  minute), so it passes the pattern and fails the range check: the error is
  InvalidTimeValues. The texts that fail with InvalidTimeFormat are exactly those
  that do not have the accepted shape.
\<close>

theorem normalizeTime_format_error:
  "normalizeTime (js ''25:00'') = Inl InvalidTimeValues
   \<and> time_pattern (js ''25:00'')
   \<and> (normalizeTime s = Inl InvalidTimeFormat) = (\<not> time_pattern s)"
  using normalizeTime_2500 time_pattern_2500 normalizeTime_no_pattern [of s]
    normalizeTime_pattern_not_format [of s] by blast

theorem normalizeTime_format_error_witness:
  "\<not> time_pattern (js ''25:0'') \<and> normalizeTime (js ''25:0'') = Inl InvalidTimeFormat"
proof -
  have "normalizeTime (js ''25:0'') = Inl InvalidTimeFormat"
    by (simp add: time_defs unit_defs decimal.simps)
  with normalizeTime_format_error [of "js ''25:0''"] show ?thesis by simp
qed

section \<open>Properties of normalizeDate\<close>

subsection \<open>The calendar\<close>

lemma div_step:
  fixes y n :: int
  assumes n: "0 < n"
  shows "y div n = (y - 1) div n + (if y mod n = 0 then 1 else 0)"
proof (cases "y mod n = 0")
  case True
  have "n * (y div n) + y mod n = y" by (rule mult_div_mod_eq)
  with True have "y - 1 = n * (y div n - 1) + (n - 1)" by (simp add: algebra_simps)
  then have "(y - 1) div n = y div n - 1"
    by (rule int_div_pos_eq) (use n in simp_all)
  with True show ?thesis by simp
next
  case False
  have "n * (y div n) + y mod n = y" by (rule mult_div_mod_eq)
  then have 1: "y - 1 = n * (y div n) + (y mod n - 1)" by simp
  have "0 \<le> y mod n" "y mod n < n" using n by simp_all
  with False have "0 \<le> y mod n - 1" "y mod n - 1 < n" by simp_all
  with 1 have "(y - 1) div n = y div n" by (rule int_div_pos_eq)
  with False show ?thesis by simp
qed

lemma mod_shift: "n dvd k \<Longrightarrow> ((y - k) mod n = 0) = (y mod n = 0)" for y n k :: int
  by (simp add: mod_eq_0_iff_dvd dvd_diff_left_iff)

lemma DayFromYear_step: "DayFromYear (y + 1) = DayFromYear y + DaysInYear y"
proof -
  have a: "(y - 1968) div 4 = (y - 1969) div 4 + (if y mod 4 = 0 then 1 else 0)"
    using div_step [of 4 "y - 1968"] mod_shift [of 4 1968 y] by simp
  have b: "(y - 1900) div 100 = (y - 1901) div 100 + (if y mod 100 = 0 then 1 else 0)"
    using div_step [of 100 "y - 1900"] mod_shift [of 100 1900 y] by simp
  have c: "(y - 1600) div 400 = (y - 1601) div 400 + (if y mod 400 = 0 then 1 else 0)"
    using div_step [of 400 "y - 1600"] mod_shift [of 400 1600 y] by simp
  have d: "y mod 100 = 0 \<Longrightarrow> y mod 4 = 0"
    by (simp add: mod_eq_0_iff_dvd) (rule dvd_trans [of 4 100], simp_all)
  have e: "y mod 400 = 0 \<Longrightarrow> y mod 100 = 0"
    by (simp add: mod_eq_0_iff_dvd) (rule dvd_trans [of 100 400], simp_all)
  show ?thesis
    using d e by (auto simp: DayFromYear_def DaysInYear_def a b c)
qed

lemma DayFromYear_base: "DayFromYear (2000 + 400 * e) = 10957 + 146097 * e"
proof -
  have "(31 + 400 * e) div 4 = 7 + 100 * e"
    by (rule int_div_pos_eq [of _ _ _ 3]) simp_all
  moreover have "(99 + 400 * e) div 100 = 4 * e"
    by (rule int_div_pos_eq [of _ _ _ 99]) simp_all
  moreover have "(399 + 400 * e) div 400 = e"
    by (rule int_div_pos_eq [of _ _ _ 399]) simp_all
  ultimately show ?thesis by (simp add: DayFromYear_def)
qed

lemma year_scan_bounds:
  "DayFromYear y \<le> d \<Longrightarrow> d < DayFromYear (y + int n) \<Longrightarrow>
   DayFromYear (year_scan n d y) \<le> d \<and> d < DayFromYear (year_scan n d y + 1)"
proof (induction n arbitrary: y)
  case 0
  then show ?case by simp
next
  case (Suc n)
  show ?case
  proof (cases "DayFromYear (y + 1) \<le> d")
    case True
    moreover from Suc.prems have "d < DayFromYear (y + 1 + int n)" by (simp add: add.assoc)
    ultimately show ?thesis using Suc.IH [of "y + 1"] by simp
  next
    case False
    with Suc.prems show ?thesis by simp
  qed
qed

lemma YearFromDay_bounds:
  "DayFromYear (YearFromDay d) \<le> d \<and> d < DayFromYear (YearFromDay d + 1)"
proof -
  define e where "e = (d - 10957) div 146097"
  have "146097 * e + (d - 10957) mod 146097 = d - 10957"
    unfolding e_def by (rule mult_div_mod_eq)
  moreover have "0 \<le> (d - 10957) mod 146097" "(d - 10957) mod 146097 < 146097" by simp_all
  ultimately have "10957 + 146097 * e \<le> d" "d < 10957 + 146097 * (e + 1)"
    by (simp_all add: algebra_simps)
  moreover have "2000 + 400 * e + int 400 = 2000 + 400 * (e + 1)" by simp
  ultimately have "DayFromYear (2000 + 400 * e) \<le> d" "d < DayFromYear (2000 + 400 * e + int 400)"
    by (simp_all only: DayFromYear_base)
  then show ?thesis unfolding YearFromDay_def e_def [symmetric] by (rule year_scan_bounds)
qed

lemma DaysInYear_pos: "0 < DaysInYear y"
  by (simp add: DaysInYear_def)

lemma DayFromYear_add: "DayFromYear y \<le> DayFromYear (y + int n)"
proof (induction n)
  case 0
  show ?case by simp
next
  case (Suc n)
  have "y + int (Suc n) = y + int n + 1" by simp
  then have "DayFromYear (y + int (Suc n)) = DayFromYear (y + int n) + DaysInYear (y + int n)"
    using DayFromYear_step [of "y + int n"] by (simp only:)
  with Suc DaysInYear_pos [of "y + int n"] show ?case by linarith
qed

lemma DayFromYear_mono: "y \<le> z \<Longrightarrow> DayFromYear y \<le> DayFromYear z"
  using DayFromYear_add [of y "nat (z - y)"] by simp

lemma YearFromDay_unique:
  assumes "DayFromYear y \<le> d" "d < DayFromYear (y + 1)"
  shows "YearFromDay d = y"
proof (rule ccontr)
  assume n: "YearFromDay d \<noteq> y"
  have b: "DayFromYear (YearFromDay d) \<le> d" "d < DayFromYear (YearFromDay d + 1)"
    using YearFromDay_bounds by blast+
  from n consider "YearFromDay d + 1 \<le> y" | "y + 1 \<le> YearFromDay d" by linarith
  then show False
  proof cases
    case 1
    then have "DayFromYear (YearFromDay d + 1) \<le> DayFromYear y" by (rule DayFromYear_mono)
    with assms b show False by linarith
  next
    case 2
    then have "DayFromYear (y + 1) \<le> DayFromYear (YearFromDay d)" by (rule DayFromYear_mono)
    with assms b show False by linarith
  qed
qed

lemma DayWithinYear_bounds: "0 \<le> DayWithinYear d \<and> DayWithinYear d < 365 + InLeapYear d"
proof -
  have "DayFromYear (YearFromDay d) \<le> d" "d < DayFromYear (YearFromDay d) + DaysInYear (YearFromDay d)"
    using YearFromDay_bounds [of d] DayFromYear_step [of "YearFromDay d"] by simp_all
  moreover have "DaysInYear (YearFromDay d) = 365 + InLeapYear d"
    by (simp add: InLeapYear_def DaysInYear_def)
  ultimately show ?thesis by (simp add: DayWithinYear_def)
qed

lemma InLeapYear_cases: "InLeapYear d = 0 \<or> InLeapYear d = 1"
  by (simp add: InLeapYear_def)

lemma MonthFromDay_bounds: "0 \<le> MonthFromDay d \<and> MonthFromDay d \<le> 11"
  by (simp add: MonthFromDay_def Let_def)

lemma DateFromDay_bounds: "1 \<le> DateFromDay d \<and> DateFromDay d \<le> 31"
  using DayWithinYear_bounds [of d] InLeapYear_cases [of d]
  by (auto simp: DateFromDay_def MonthFromDay_def Let_def split: if_splits)

lemma decimal_1: "n < 10 \<Longrightarrow> decimal n = [48 + n]"
  by (simp add: decimal.simps)

lemma decimal_2: "10 \<le> n \<Longrightarrow> n < 100 \<Longrightarrow> decimal n = [48 + n div 10, 48 + n mod 10]"
  by (simp add: decimal.simps [of n] decimal_1)

lemma decimal_3:
  "100 \<le> n \<Longrightarrow> n < 1000 \<Longrightarrow> decimal n = [48 + n div 100, 48 + n div 10 mod 10, 48 + n mod 10]"
  by (simp add: decimal.simps [of n] decimal_2 div_mult2_eq)

lemma decimal_4:
  assumes "1000 \<le> n" "n < 10000"
  shows "decimal n = [48 + n div 1000, 48 + n div 100 mod 10, 48 + n div 10 mod 10, 48 + n mod 10]"
proof -
  have "n div 10 div 100 = n div 1000" "n div 10 div 10 = n div 100"
    by (simp_all add: div_mult2_eq [symmetric])
  with assms show ?thesis by (simp add: decimal.simps [of n] decimal_3)
qed

lemma replicate_small: "replicate 2 x = [x, x]" "replicate 3 x = [x, x, x]"
  by (simp_all add: numeral_2_eq_2 numeral_3_eq_3)

lemma pad_2: "0 \<le> i \<Longrightarrow> i \<le> 99 \<Longrightarrow> pad 2 i = two_digits i"
  by (cases "nat i < 10")
     (simp_all add: pad_def padStart_def toString_def two_digits_def decimal_1 decimal_2)

lemma pad_4:
  assumes "0 \<le> i" "i \<le> 9999"
  shows "pad 4 i = four_digits i"
proof -
  consider "nat i < 10" | "10 \<le> nat i" "nat i < 100" | "100 \<le> nat i" "nat i < 1000"
    | "1000 \<le> nat i" "nat i < 10000"
    using assms by linarith
  then show ?thesis
  proof cases
    case 1
    with assms show ?thesis
      by (simp add: pad_def padStart_def toString_def four_digits_def decimal_1 replicate_small)
  next
    case 2
    with assms show ?thesis
      by (simp add: pad_def padStart_def toString_def four_digits_def decimal_2 replicate_small)
  next
    case 3
    with assms show ?thesis
      by (simp add: pad_def padStart_def toString_def four_digits_def decimal_3 replicate_small)
  next
    case 4
    with assms show ?thesis
      by (simp add: pad_def padStart_def toString_def four_digits_def decimal_4)
  qed
qed

lemma takeWhile_until:
  "\<forall>x \<in> set xs. x \<noteq> c \<Longrightarrow> takeWhile (\<lambda>x. x \<noteq> c) (xs @ c # r) = xs"
  by (induction xs) simp_all

lemma iso_date_no_T:
  assumes "0 \<le> y" "y \<le> 9999" "0 \<le> m" "m \<le> 99" "0 \<le> d" "d \<le> 99"
  shows "\<forall>x \<in> set (iso_date y m d). x \<noteq> 84"
proof -
  have "nat y div 1000 < 10" "nat m div 10 < 10" "nat d div 10 < 10"
    using assms by simp_all
  moreover have "nat y div 100 mod 10 < 10" "nat y div 10 mod 10 < 10" "nat y mod 10 < 10"
    "nat m mod 10 < 10" "nat d mod 10 < 10" by simp_all
  ultimately show ?thesis
    by (auto simp: iso_date_def four_digits_def two_digits_def hyphen_def)
qed

lemma toISOString_date:
  assumes "0 \<le> YearFromDay (t div msPerDay)" "YearFromDay (t div msPerDay) \<le> 9999"
  shows "split_first 84 (toISOString t) =
         iso_date (YearFromDay (t div msPerDay)) (MonthFromDay (t div msPerDay) + 1)
           (DateFromDay (t div msPerDay))"
proof -
  define d where "d = t div msPerDay"
  have m: "0 \<le> MonthFromDay d + 1" "MonthFromDay d + 1 \<le> 99"
    using MonthFromDay_bounds [of d] by simp_all
  have dd: "0 \<le> DateFromDay d" "DateFromDay d \<le> 99"
    using DateFromDay_bounds [of d] by simp_all
  from assms have y: "0 \<le> YearFromDay d" "YearFromDay d \<le> 9999" by (simp_all add: d_def)
  obtain r where "toISOString t =
      iso_date (YearFromDay d) (MonthFromDay d + 1) (DateFromDay d) @ 84 # r"
    using y m dd by (simp add: toISOString_def Let_def d_def [symmetric] iso_date_def iso_year_def
        pad_2 pad_4)
  then show ?thesis
    unfolding split_first_def d_def [symmetric]
    using iso_date_no_T [OF y m dd] by (simp add: takeWhile_until)
qed

lemma normalizeDate_valid:
  assumes "new_Date parse s = Some t"
    and "0 \<le> YearFromDay (t div msPerDay)" "YearFromDay (t div msPerDay) \<le> 9999"
  shows "normalizeDate parse s =
         Inr (iso_date (YearFromDay (t div msPerDay)) (MonthFromDay (t div msPerDay) + 1)
           (DateFromDay (t div msPerDay)))"
  using assms by (simp add: normalizeDate_def toISOString_date)

lemma normalizeDate_invalid:
  "(normalizeDate parse s = Inl InvalidDateFormat) = (new_Date parse s = None)"
  by (simp add: normalizeDate_def split: option.splits)

lemmas day_defs = MonthFromDay_def DateFromDay_def DayWithinYear_def InLeapYear_def
  DaysInYear_def DayFromYear_def

lemmas iso_defs = normalizeDate_def new_Date_def TimeClip_def host_parse_def split_first_def
  toISOString_def iso_year_def pad_def padStart_def toString_def msPerDay_def js_def
  hyphen_def colon_def

lemma year_19787: "YearFromDay 19787 = 2024"
  by (rule YearFromDay_unique) (simp_all add: DayFromYear_def)

lemma year_19786: "YearFromDay 19786 = 2024"
  by (rule YearFromDay_unique) (simp_all add: DayFromYear_def)

lemma year_2932897: "YearFromDay 2932897 = 10000"
  by (rule YearFromDay_unique) (simp_all add: DayFromYear_def)

lemma normalizeDate_march_utc:
  "normalizeDate (host_parse 0) (js ''March 5, 2024'') = Inr (js ''2024-03-05'')"
proof -
  have "new_Date (host_parse 0) (js ''March 5, 2024'') = Some 1709596800000"
    by (simp add: new_Date_def host_parse_def TimeClip_def)
  moreover have d: "1709596800000 div msPerDay = 19787" by (simp add: msPerDay_def)
  ultimately have "normalizeDate (host_parse 0) (js ''March 5, 2024'') =
      Inr (iso_date (YearFromDay 19787) (MonthFromDay 19787 + 1) (DateFromDay 19787))"
    using normalizeDate_valid [of "host_parse 0" "js ''March 5, 2024''" 1709596800000]
    by (simp add: year_19787)
  moreover have "MonthFromDay 19787 = 2" "DateFromDay 19787 = 5"
    by (simp_all add: day_defs year_19787)
  ultimately show ?thesis
    by (simp add: year_19787 iso_date_def four_digits_def two_digits_def js_def hyphen_def)
qed

lemma normalizeDate_march_east:
  "normalizeDate (host_parse 480) (js ''March 5, 2024'') = Inr (js ''2024-03-04'')"
proof -
  have "new_Date (host_parse 480) (js ''March 5, 2024'') = Some 1709568000000"
    by (simp add: new_Date_def host_parse_def TimeClip_def)
  moreover have d: "1709568000000 div msPerDay = 19786" by (simp add: msPerDay_def)
  ultimately have "normalizeDate (host_parse 480) (js ''March 5, 2024'') =
      Inr (iso_date (YearFromDay 19786) (MonthFromDay 19786 + 1) (DateFromDay 19786))"
    using normalizeDate_valid [of "host_parse 480" "js ''March 5, 2024''" 1709568000000]
    by (simp add: year_19786)
  moreover have "MonthFromDay 19786 = 2" "DateFromDay 19786 = 4"
    by (simp_all add: day_defs year_19786)
  ultimately show ?thesis
    by (simp add: year_19786 iso_date_def four_digits_def two_digits_def js_def hyphen_def)
qed

lemma normalizeDate_year_10000:
  "normalizeDate (host_parse 0) (js ''+010000-01-01T00:00:00.000Z'') = Inr (js ''+010000-01-01'')"
proof -
  have "MonthFromDay 2932897 = 0" "DateFromDay 2932897 = 1"
    by (simp_all add: day_defs year_2932897)
  then show ?thesis
    by (simp add: iso_defs Let_def year_2932897 decimal.simps)
qed

lemma normalizeDate_not_a_date:
  "normalizeDate (host_parse 0) (js ''not a date'') = Inl InvalidDateFormat"
  by (simp add: normalizeDate_def new_Date_def host_parse_def js_def)

subsection \<open>Claims about normalizeDate\<close>

lemma year_range:
  assumes "- 62167219200000 \<le> t" "t < 253402300800000"
  shows "0 \<le> YearFromDay (t div msPerDay) \<and> YearFromDay (t div msPerDay) \<le> 9999"
proof -
  define d where "d = t div msPerDay"
  have "(- 62167219200000) div msPerDay \<le> d"
    unfolding d_def using assms(1) by (intro zdiv_mono1) (simp_all add: msPerDay_def)
  then have lo: "DayFromYear 0 \<le> d" by (simp add: msPerDay_def DayFromYear_def)
  from assms(2) have "t \<le> 253402300799999" by simp
  then have "d \<le> 253402300799999 div msPerDay"
    unfolding d_def by (intro zdiv_mono1) (simp_all add: msPerDay_def)
  then have hi: "d < DayFromYear 10000" by (simp add: msPerDay_def DayFromYear_def)
  have b: "DayFromYear (YearFromDay d) \<le> d" "d < DayFromYear (YearFromDay d + 1)"
    using YearFromDay_bounds by blast+
  have "0 \<le> YearFromDay d"
  proof (rule ccontr)
    assume "\<not> 0 \<le> YearFromDay d"
    then have "YearFromDay d + 1 \<le> 0" by simp
    then have "DayFromYear (YearFromDay d + 1) \<le> DayFromYear 0" by (rule DayFromYear_mono)
    with lo b show False by linarith
  qed
  moreover have "YearFromDay d \<le> 9999"
  proof (rule ccontr)
    assume "\<not> YearFromDay d \<le> 9999"
    then have "10000 \<le> YearFromDay d" by simp
    then have "DayFromYear 10000 \<le> DayFromYear (YearFromDay d)" by (rule DayFromYear_mono)
    with hi b show False by linarith
  qed
  ultimately show ?thesis by (simp add: d_def)
qed

text \<open>
  What \<open>normalizeDate\<close> computes. When the host's parser gives a time value within the
  years 0000 to 9999, the result is the calendar date of that time value in UTC, written
  \<open>YYYY-MM-DD\<close>; the call fails with InvalidDateFormat exactly when the parser gives no
  time value. The date written in the text is therefore returned only when the text is
  read as a time of that same day in UTC, as on a host in UTC.
\<close>

lemma normalizeDate_utc_date:
  assumes "new_Date parse s = Some t"
    and "- 62167219200000 \<le> t" and "t < 253402300800000"
  shows "normalizeDate parse s =
           Inr (iso_date (YearFromDay (t div msPerDay)) (MonthFromDay (t div msPerDay) + 1)
             (DateFromDay (t div msPerDay)))
         \<and> DayFromYear (YearFromDay (t div msPerDay)) \<le> t div msPerDay
         \<and> t div msPerDay < DayFromYear (YearFromDay (t div msPerDay) + 1)
         \<and> 1 \<le> MonthFromDay (t div msPerDay) + 1 \<and> MonthFromDay (t div msPerDay) + 1 \<le> 12
         \<and> 1 \<le> DateFromDay (t div msPerDay) \<and> DateFromDay (t div msPerDay) \<le> 31
         \<and> (normalizeDate parse' s' = Inl InvalidDateFormat) = (new_Date parse' s' = None)
         \<and> normalizeDate (host_parse 0) (js ''March 5, 2024'') = Inr (js ''2024-03-05'')
         \<and> normalizeDate (host_parse 0) (js ''not a date'') = Inl InvalidDateFormat"
proof -
  have y: "0 \<le> YearFromDay (t div msPerDay)" "YearFromDay (t div msPerDay) \<le> 9999"
    using year_range [OF assms(2,3)] by simp_all
  have "normalizeDate parse s =
           Inr (iso_date (YearFromDay (t div msPerDay)) (MonthFromDay (t div msPerDay) + 1)
             (DateFromDay (t div msPerDay)))"
    using assms(1) y by (rule normalizeDate_valid)
  moreover have "1 \<le> MonthFromDay (t div msPerDay) + 1 \<and> MonthFromDay (t div msPerDay) + 1 \<le> 12"
    using MonthFromDay_bounds [of "t div msPerDay"] by simp
  ultimately show ?thesis
    using YearFromDay_bounds [of "t div msPerDay"] DateFromDay_bounds [of "t div msPerDay"]
      normalizeDate_invalid [of parse' s'] normalizeDate_march_utc normalizeDate_not_a_date
    by simp
qed

lemma normalizeDate_utc_date_at_march_5:
  "new_Date (host_parse 0) (js ''March 5, 2024'') = Some 1709596800000
   \<and> (- 62167219200000 :: int) \<le> 1709596800000 \<and> (1709596800000 :: int) < 253402300800000
   \<and> normalizeDate (host_parse 0) (js ''March 5, 2024'') = Inr (iso_date 2024 3 5)
   \<and> iso_date 2024 3 5 = js ''2024-03-05''"
proof -
  have 1: "new_Date (host_parse 0) (js ''March 5, 2024'') = Some 1709596800000"
    by (simp add: new_Date_def host_parse_def TimeClip_def)
  have 2: "(- 62167219200000 :: int) \<le> 1709596800000" by simp
  have 3: "(1709596800000 :: int) < 253402300800000" by simp
  have "(1709596800000 :: int) div msPerDay = 19787" by (simp add: msPerDay_def)
  moreover have "MonthFromDay 19787 = 2" "DateFromDay 19787 = 5"
    by (simp_all add: day_defs year_19787)
  moreover have "iso_date 2024 3 5 = js ''2024-03-05''"
    by (simp add: iso_date_def four_digits_def two_digits_def js_def hyphen_def)
  ultimately show ?thesis
    using normalizeDate_utc_date [OF 1 2 3] 1 by (simp add: year_19787)
qed

lemma toISOString_dates:
  "split_first 84 (toISOString 1709568000000) = js ''2024-03-04''"
  "split_first 84 (toISOString 253402300800000) = js ''+010000-01-01''"
proof -
  have "new_Date (host_parse 480) (js ''March 5, 2024'') = Some 1709568000000"
    by (simp add: new_Date_def host_parse_def TimeClip_def)
  then have "normalizeDate (host_parse 480) (js ''March 5, 2024'')
      = Inr (split_first 84 (toISOString 1709568000000))"
    by (simp add: normalizeDate_def)
  then show "split_first 84 (toISOString 1709568000000) = js ''2024-03-04''"
    using normalizeDate_march_east by simp
  have "new_Date (host_parse 0) (js ''+010000-01-01T00:00:00.000Z'') = Some 253402300800000"
    by (simp add: new_Date_def host_parse_def TimeClip_def js_def)
  then have "normalizeDate (host_parse 0) (js ''+010000-01-01T00:00:00.000Z'')
      = Inr (split_first 84 (toISOString 253402300800000))"
    by (simp add: normalizeDate_def)
  then show "split_first 84 (toISOString 253402300800000) = js ''+010000-01-01''"
    using normalizeDate_year_10000 by simp
qed

text \<open>
  C7 fails on the code. The text \<open>March 5, 2024\<close> is read by the host as midnight of
  that day in local time; on a host eight hours east of Greenwich that is 16:00 of
  4 March in UTC, and the code returns \<open>2024-03-04\<close>, the day before the date written.
  A text the parser accepts with the year 10000 gives \<open>+010000-01-01\<close>, which is not of
  the form \<open>YYYY-MM-DD\<close>. Both results are what \<open>toISOString().split('T')[0]\<close> gives for
  these time values, whichever text and parser they come from.
\<close>

theorem normalizeDate_not_always_the_written_date:
  "normalizeDate (host_parse 480) (js ''March 5, 2024'') = Inr (js ''2024-03-04'')
   \<and> normalizeDate (host_parse 0) (js ''+010000-01-01T00:00:00.000Z'') = Inr (js ''+010000-01-01'')
   \<and> normalizeDate (\<lambda>x. Some 1709568000000) s = Inr (js ''2024-03-04'')
   \<and> normalizeDate (\<lambda>x. Some 253402300800000) s = Inr (js ''+010000-01-01'')"
proof -
  have "new_Date (\<lambda>x. Some 1709568000000) s = Some 1709568000000"
    "new_Date (\<lambda>x. Some 253402300800000) s = Some 253402300800000"
    by (simp_all add: new_Date_def TimeClip_def)
  then have "normalizeDate (\<lambda>x. Some 1709568000000) s = Inr (js ''2024-03-04'')"
    "normalizeDate (\<lambda>x. Some 253402300800000) s = Inr (js ''+010000-01-01'')"
    by (simp_all add: normalizeDate_def toISOString_dates)
  then show ?thesis
    using normalizeDate_march_east normalizeDate_year_10000 by simp
qed

section \<open>Properties of the Event model\<close>

lemma toLowerCase_slugless: "slugless t \<Longrightarrow> toLowerCase t = t"
  by (induction t) (auto simp: slugless_def toLowerCase_def lower_unit_def is_ascii_alnum_def)

lemma set_trim: "set (trim s) \<subseteq> set s"
  by (auto simp: trim_def dest!: set_dropWhileD)

lemma slugless_trim: "slugless t \<Longrightarrow> slugless (trim t)"
  using set_trim [of t] by (auto simp: slugless_def list_all_iff)

lemma strip_all_hyphens: "set s \<subseteq> {hyphen} \<Longrightarrow> strip_hyphens s = []"
proof -
  assume "set s \<subseteq> {hyphen}"
  then have "\<forall>x \<in> set s. x = hyphen" by auto
  then have "dropWhile (\<lambda>c. c = hyphen) s = []" by (simp only: dropWhile_eq_Nil_conv)
  then show ?thesis by (simp add: strip_hyphens_def del: dropWhile_eq_Nil_conv)
qed

lemma slug_spec_slugless:
  assumes "slugless t"
  shows "slug_spec t = []"
proof -
  define f where "f = filter slug_unit (trim (toLowerCase t))"
  have "set f \<subseteq> {c. is_space c \<or> c = hyphen}"
    using assms set_trim [of t]
    by (auto simp: f_def toLowerCase_slugless slugless_def list_all_iff slug_unit_def
        is_ascii_alnum_def)
  then have "set (collapse_runs is_space hyphen f) \<subseteq> {hyphen}"
    using set_collapse_runs [of is_space hyphen f] by auto
  then have "set (collapse_runs (\<lambda>c. c = hyphen) hyphen (collapse_runs is_space hyphen f)) \<subseteq> {hyphen}"
    using set_collapse_runs [of "\<lambda>c. c = hyphen" hyphen "collapse_runs is_space hyphen f"] by auto
  then show ?thesis
    unfolding slug_spec_def f_def [symmetric] by (rule strip_all_hyphens)
qed

lemma generateSlug_slugless: "slugless t \<Longrightarrow> generateSlug t = []"
  by (simp add: generateSlug_spec slug_spec_slugless)

lemma slug_setters_empty: "slug_setters [] = []"
  by (simp add: slug_setters_def trim_def toLowerCase_def)





lemma new_event_title:
  "in_title i = Cast t \<Longrightarrow> ev_title (doc_of (new_event h w (EventSchema_setters i))) = trim t"
  by (simp add: new_event_def EventSchema_setters_def value_or_def map_cast_def)





lemmas schema_defs = EventSchema_setters_def EventSchema_validate_def required_string_def
  optional_string_def required_array_def maxlength_def no_more_def mode_enum_def map_cast_def
  value_or_def given_paths_def given_def new_event_def

lemmas hook_defs = EventSchema_pre_save_def set_slug_def set_date_def set_time_def
  isModified_def slug_setters_def

lemma sample_valid:
  "t = js ''!!!'' \<or> t = js ''???'' \<Longrightarrow> EventSchema_validate (EventSchema_setters (sample_input t)) = []"
  by (auto simp: sample_input_def schema_defs js_def trim_def unit_defs)

lemma sample_slugless: "slugless (js ''!!!'')" "slugless (js ''???'')"
  by (simp_all add: slugless_def is_ascii_alnum_def js_def unit_defs)

lemma sample_hook:
  assumes "t = js ''!!!'' \<or> t = js ''???''"
  shows "\<exists>d. EventSchema_pre_save (host_parse 0) (new_event sample_host w (EventSchema_setters (sample_input t))) = Inr d
             \<and> ev_slug (doc_of d) = Some []"
proof -
  define d0 where "d0 = new_event sample_host w (EventSchema_setters (sample_input t))"
  have m: "isNew d0" "isModified d0 ''date''" "isModified d0 ''time''"
    "ev_date (doc_of d0) = js ''March 5, 2024''" "ev_time (doc_of d0) = js ''2:30 PM''"
    by (simp_all add: d0_def sample_input_def schema_defs isModified_def)
  have "slugless (ev_title (doc_of d0))"
    using assms sample_slugless
    by (auto simp: d0_def sample_input_def new_event_title slugless_trim)
  then have s: "ev_slug (doc_of (set_slug d0)) = Some []"
    using m(1) by (simp add: set_slug_def generateSlug_slugless slug_setters_empty)
  have k: "isModified (set_slug d0) ''date''" "ev_date (doc_of (set_slug d0)) = js ''March 5, 2024''"
    "isModified (set_slug d0) ''time''" "ev_time (doc_of (set_slug d0)) = js ''2:30 PM''"
    using m by (simp_all add: set_slug_def isModified_def)
  define d1 where "d1 = (set_slug d0)\<lparr>doc_of := (doc_of (set_slug d0))\<lparr>ev_date := js ''2024-03-05''\<rparr>\<rparr>"
  have 1: "set_date (host_parse 0) (set_slug d0) = Inr d1"
    using k by (simp add: set_date_def normalizeDate_march_utc d1_def)
  have "isModified d1 ''time''" "ev_time (doc_of d1) = js ''2:30 PM''"
    using k by (simp_all add: d1_def isModified_def)
  then have 2: "set_time d1 = Inr (d1\<lparr>doc_of := (doc_of d1)\<lparr>ev_time := js ''14:30''\<rparr>\<rparr>)"
    by (simp add: set_time_def normalizeTime_230pm)
  have "ev_slug (doc_of (d1\<lparr>doc_of := (doc_of d1)\<lparr>ev_time := js ''14:30''\<rparr>\<rparr>)) = Some []"
    using s by (simp add: d1_def)
  with 1 2 show ?thesis
    unfolding d0_def [symmetric] by (simp add: EventSchema_pre_save_def)
qed

lemma sample_create_first:
  "\<exists>e w'. Event_create sample_host empty_world (sample_input (js ''!!!'')) = (Inr e, w')
          \<and> ev_slug e = Some [] \<and> events w' = [e]"
proof -
  define w1 where "w1 = record_effect EventCreate empty_world"
  obtain d where d: "EventSchema_pre_save (host_parse 0)
        (new_event sample_host w1 (EventSchema_setters (sample_input (js ''!!!'')))) = Inr d"
      "ev_slug (doc_of d) = Some []"
    using sample_hook [of "js ''!!!''" w1] by auto
  have "Event_insert w1 (doc_of d) = (Inr (doc_of d), w1\<lparr>events := [doc_of d]\<rparr>)"
    by (simp add: Event_insert_def w1_def record_effect_def empty_world_def)
  with d have "Event_create sample_host empty_world (sample_input (js ''!!!'')) =
      (Inr (doc_of d), w1\<lparr>events := [doc_of d]\<rparr>)"
    by (simp add: Event_create_def Let_def sample_valid w1_def [symmetric] sample_host_def)
  with d(2) show ?thesis by simp
qed












section \<open>Properties of the Booking model and of the booking action\<close>

lemma hook_skipped:
  "\<not> isNew d \<Longrightarrow> \<not> isModified d ''eventId'' \<Longrightarrow> BookingSchema_pre_save w d = (None, w)"
  by (simp add: BookingSchema_pre_save_def)

lemma hook_looks_up:
  "isNew d \<or> isModified d ''eventId'' \<Longrightarrow>
   effects (snd (BookingSchema_pre_save w d)) = effects w @ [EventFindById (bk_eventId (doc_of d))]
   \<and> events (snd (BookingSchema_pre_save w d)) = events w
   \<and> bookings (snd (BookingSchema_pre_save w d)) = bookings w"
  by (auto simp: BookingSchema_pre_save_def Event_findById_def record_effect_def
      split: option.splits)

lemma find_None_list_ex: "(find P xs = None) = (\<not> list_ex P xs)"
  by (auto simp: find_None_iff list_ex_iff)

lemma hook_not_found:
  assumes "isNew d \<or> isModified d ''eventId''"
    and "\<not> list_ex (\<lambda>e. ev_id e = bk_eventId (doc_of d)) (events w)"
  shows "fst (BookingSchema_pre_save w d) = Some (EventNotFound (bk_eventId (doc_of d)))"
  using assms
  by (auto simp: BookingSchema_pre_save_def Event_findById_def find_None_list_ex [symmetric])

lemma hook_found:
  assumes "list_ex (\<lambda>e. ev_id e = bk_eventId (doc_of d)) (events w)"
  shows "fst (BookingSchema_pre_save w d) = None"
proof -
  from assms have "find (\<lambda>e. ev_id e = bk_eventId (doc_of d)) (events w) \<noteq> None"
    by (simp add: find_None_list_ex)
  then show ?thesis
    by (auto simp: BookingSchema_pre_save_def Event_findById_def)
qed

lemma bookings_record_effect: "bookings (record_effect x w) = bookings w"
  by (simp add: record_effect_def)

lemma save_not_found:
  assumes "isNew d \<or> isModified d ''eventId''"
    and "\<not> list_ex (\<lambda>e. ev_id e = bk_eventId (doc_of d)) (events w)"
  shows "(\<exists>err. fst (Booking_save w d) = Inl err) \<and> bookings (snd (Booking_save w d)) = bookings w
    \<and> ((isNew d \<or> isModified d ''email'' \<longrightarrow> validate_email (bk_email (doc_of d)) = [])
         \<longrightarrow> fst (Booking_save w d) = Inl (EventNotFound (bk_eventId (doc_of d))))"
proof -
  obtain w' where h: "BookingSchema_pre_save w d = (Some (EventNotFound (bk_eventId (doc_of d))), w')"
    using hook_not_found [OF assms] by (cases "BookingSchema_pre_save w d") auto
  have "bookings w' = bookings w" using hook_looks_up [OF assms(1), of w] h by simp
  with h show ?thesis by (auto simp: Booking_save_def Let_def)
qed

lemma create_not_found:
  assumes "\<forall>x. castObjectId h eventId = Cast x \<longrightarrow> \<not> list_ex (\<lambda>e. ev_id e = x) (events w)"
  shows "(\<exists>err. fst (Booking_create h w eventId email) = Inl err)
         \<and> bookings (snd (Booking_create h w eventId email)) = bookings w"
proof (cases "castObjectId h eventId")
  case (Cast x)
  define w1 where "w1 = record_effect BookingCreate w"
  define d where "d = \<lparr>doc_of = \<lparr>bk_id = newObjectId h (length (bookings w1)), bk_eventId = x,
                           bk_email = email_setters email,
                           bk_createdAt = clock h, bk_updatedAt = clock h\<rparr>,
                 isNew = True, modifiedPaths = [''eventId'', ''email'']\<rparr>"
  have "\<not> list_ex (\<lambda>e. ev_id e = bk_eventId (doc_of d)) (events w1)"
    using assms Cast by (simp add: d_def w1_def record_effect_def)
  moreover have "isNew d \<or> isModified d ''eventId''" by (simp add: d_def)
  ultimately have "(\<exists>err. fst (Booking_save w1 d) = Inl err)
      \<and> bookings (snd (Booking_save w1 d)) = bookings w1"
    using save_not_found [of d w1] by blast
  moreover have "Booking_create h w eventId email = Booking_save w1 d"
    using Cast by (simp add: Booking_create_def Let_def w1_def d_def)
  ultimately show ?thesis by (simp add: w1_def bookings_record_effect)
next
  case Uncastable
  then show ?thesis by (simp add: Booking_create_def Let_def bookings_record_effect)
next
  case Absent
  then show ?thesis by (simp add: Booking_create_def Let_def bookings_record_effect)
qed

lemma createBooking_no_success: "fst (createBooking h w eventId slug email) \<noteq> Success b"
  by (auto simp: createBooking_def Let_def Document_lean_def split: option.splits sum.splits prod.splits)

lemma create_not_found_error:
  assumes "castObjectId h eventId = Cast x" "validate_email (email_setters email) = []"
    and "\<not> list_ex (\<lambda>e. ev_id e = x) (events w)"
  shows "fst (Booking_create h w eventId email) = Inl (EventNotFound x)"
proof -
  define w1 where "w1 = record_effect BookingCreate w"
  define d where "d = \<lparr>doc_of = \<lparr>bk_id = newObjectId h (length (bookings w1)), bk_eventId = x,
                           bk_email = email_setters email,
                           bk_createdAt = clock h, bk_updatedAt = clock h\<rparr>,
                 isNew = True, modifiedPaths = [''eventId'', ''email'']\<rparr>"
  have "\<not> list_ex (\<lambda>e. ev_id e = bk_eventId (doc_of d)) (events w1)"
    using assms(3) by (simp add: d_def w1_def record_effect_def)
  moreover have "isNew d \<or> isModified d ''eventId''" by (simp add: d_def)
  moreover have "validate_email (bk_email (doc_of d)) = []" using assms(2) by (simp add: d_def)
  ultimately have "fst (Booking_save w1 d) = Inl (EventNotFound (bk_eventId (doc_of d)))"
    using save_not_found [of d w1] by blast
  moreover have "Booking_create h w eventId email = Booking_save w1 d"
    using assms(1) by (simp add: Booking_create_def Let_def w1_def d_def)
  ultimately show ?thesis by (simp add: d_def)
qed

lemmas email_defs = validate_email_def email_setters_def emailRegex_test_def domain_label_def
  is_local_unit_def is_alnum_def

lemma sample_email_valid: "validate_email (email_setters (js ''a@b.co'')) = []"
  by (simp add: email_defs js_def toLowerCase_def lower_unit_def trim_def unit_defs)

lemma sample_email_setters: "email_setters (js ''a@b.co'') = js ''a@b.co''"
  by (simp add: email_defs js_def toLowerCase_def lower_unit_def trim_def unit_defs)

lemma sample_id_cast:
  "castObjectId sample_host (js ''000000000000000000000000'') = Cast (js ''000000000000000000000000'')"
  by (simp add: sample_host_def sample_castObjectId_def is_hex_def js_def toLowerCase_def
      lower_unit_def unit_defs)

text \<open>
  C8. The pre-save hook of a booking returns without a lookup when the booking is not
  new and \<open>eventId\<close> is not modified, and looks the event up otherwise. When no event has
  that identifier the hook throws the error that names the identifier, the save fails
  and the collection of bookings is unchanged; so \<open>Booking.create\<close> with an \<open>eventId\<close>
  that is the identifier of no event stores nothing, and fails with that error when the
  validators pass.
\<close>

theorem booking_hook_event_check:
  "(\<not> isNew d \<and> \<not> isModified d ''eventId'' \<longrightarrow> BookingSchema_pre_save w d = (None, w))
   \<and> (isNew d \<or> isModified d ''eventId'' \<longrightarrow>
        effects (snd (BookingSchema_pre_save w d)) =
          effects w @ [EventFindById (bk_eventId (doc_of d))])
   \<and> ((isNew d \<or> isModified d ''eventId'')
        \<and> \<not> list_ex (\<lambda>e. ev_id e = bk_eventId (doc_of d)) (events w) \<longrightarrow>
        fst (BookingSchema_pre_save w d) = Some (EventNotFound (bk_eventId (doc_of d)))
        \<and> (\<exists>err. fst (Booking_save w d) = Inl err)
        \<and> bookings (snd (Booking_save w d)) = bookings w)
   \<and> ((\<forall>x. castObjectId h eventId = Cast x \<longrightarrow> \<not> list_ex (\<lambda>e. ev_id e = x) (events w)) \<longrightarrow>
        (\<exists>err. fst (Booking_create h w eventId email) = Inl err)
        \<and> bookings (snd (Booking_create h w eventId email)) = bookings w)
   \<and> (castObjectId h eventId = Cast x \<and> validate_email (email_setters email) = []
        \<and> \<not> list_ex (\<lambda>e. ev_id e = x) (events w) \<longrightarrow>
        fst (Booking_create h w eventId email) = Inl (EventNotFound x))
   \<and> EventNotFound x = Error (js ''Event with ID '' @ x @ js '' does not exist'')"
  using hook_skipped [of d w] hook_looks_up [of d w] hook_not_found [of d w]
    save_not_found [of d w] create_not_found [of h eventId w email]
    create_not_found_error [of h eventId x email w]
  by (simp add: EventNotFound_def)

theorem booking_hook_event_check_witness:
  "fst (Booking_create sample_host empty_world (js ''000000000000000000000000'') (js ''a@b.co''))
     = Inl (Error (js ''Event with ID 000000000000000000000000 does not exist''))
   \<and> bookings (snd (Booking_create sample_host empty_world (js ''000000000000000000000000'')
        (js ''a@b.co''))) = []
   \<and> BookingSchema_pre_save empty_world
        \<lparr>doc_of = \<lparr>bk_id = js ''1'', bk_eventId = js ''000000000000000000000000'',
                   bk_email = js ''a@b.co'', bk_createdAt = 0, bk_updatedAt = 0\<rparr>,
         isNew = False, modifiedPaths = [''email'']\<rparr> = (None, empty_world)"
proof -
  define d where "d = \<lparr>doc_of = \<lparr>bk_id = js ''1'', bk_eventId = js ''000000000000000000000000'',
                   bk_email = js ''a@b.co'', bk_createdAt = 0, bk_updatedAt = 0\<rparr>,
         isNew = False, modifiedPaths = [''email'']\<rparr>"
  have 1: "\<not> isNew d \<and> \<not> isModified d ''eventId''" by (simp add: d_def isModified_def)
  have 2: "\<not> list_ex (\<lambda>e. ev_id e = js ''000000000000000000000000'') (events empty_world)"
    by (simp add: empty_world_def)
  have 3: "bookings empty_world = []" by (simp add: empty_world_def)
  have 4: "js ''Event with ID '' @ js ''000000000000000000000000'' @ js '' does not exist''
      = js ''Event with ID 000000000000000000000000 does not exist''"
    by (simp add: js_def)
  note th = booking_hook_event_check [where d = d and w = empty_world and h = sample_host
      and eventId = "js ''000000000000000000000000''" and email = "js ''a@b.co''"
      and x = "js ''000000000000000000000000''"]
  from th 1 2 3 4 sample_id_cast sample_email_valid show ?thesis
    unfolding d_def [symmetric] by simp
qed

lemma sample_booking_created:
  "\<exists>b w'. Booking_create sample_host (record_effect Connect sample_world)
      (js ''000000000000000000000000'') (js ''a@b.co'') = (Inr b, w')
    \<and> bookings w' = [b] \<and> bk_email b = js ''a@b.co''
    \<and> bk_eventId b = js ''000000000000000000000000''"
proof -
  define w1 where "w1 = record_effect BookingCreate (record_effect Connect sample_world)"
  define d where "d = \<lparr>doc_of = \<lparr>bk_id = newObjectId sample_host (length (bookings w1)),
                           bk_eventId = js ''000000000000000000000000'',
                           bk_email = email_setters (js ''a@b.co''),
                           bk_createdAt = clock sample_host, bk_updatedAt = clock sample_host\<rparr>,
                 isNew = True, modifiedPaths = [''eventId'', ''email'']\<rparr>"
  have c: "Booking_create sample_host (record_effect Connect sample_world)
      (js ''000000000000000000000000'') (js ''a@b.co'') = Booking_save w1 d"
    by (simp add: Booking_create_def Let_def sample_id_cast w1_def d_def)
  have ev: "events w1 = [sample_event]" and bk: "bookings w1 = []"
    by (simp_all add: w1_def record_effect_def sample_world_def)
  have "ev_id sample_event = js ''000000000000000000000000''" by (simp add: sample_event_def)
  with ev have "list_ex (\<lambda>e. ev_id e = bk_eventId (doc_of d)) (events w1)"
    by (simp add: d_def)
  then have "fst (BookingSchema_pre_save w1 d) = None" by (rule hook_found)
  moreover have "isNew d \<or> isModified d ''eventId''" by (simp add: d_def)
  ultimately obtain w2 where h: "BookingSchema_pre_save w1 d = (None, w2)"
    and w2: "bookings w2 = []"
    using hook_looks_up [of d w1] bk by (cases "BookingSchema_pre_save w1 d") auto
  have "Booking_write w2 d = (Inr (doc_of d), w2\<lparr>bookings := [doc_of d]\<rparr>)"
    using w2 by (simp add: Booking_write_def Let_def d_def)
  moreover have "validate_email (bk_email (doc_of d)) = []"
    by (simp add: d_def sample_email_valid)
  ultimately have "Booking_save w1 d = (Inr (doc_of d), w2\<lparr>bookings := [doc_of d]\<rparr>)"
    using h by (simp add: Booking_save_def Let_def d_def)
  with c show ?thesis by (simp add: d_def sample_email_setters)
qed

text \<open>
  C9 fails on the code. With an event in the store and a valid address, the booking is
  stored and the action still returns the failure branch, with the TypeError of the
  call of \<open>lean\<close>: no input makes the action return \<open>{success: true, booking}\<close>.
\<close>

theorem createBooking_stores_and_fails:
  "fst (createBooking sample_host sample_world (js ''000000000000000000000000'')
      (js ''hello-world-2024'') (js ''a@b.co''))
     = Failure (TypeError (js ''(intermediate value).lean is not a function''))
   \<and> map bk_email (bookings (snd (createBooking sample_host sample_world
        (js ''000000000000000000000000'') (js ''hello-world-2024'') (js ''a@b.co''))))
     = [js ''a@b.co'']
   \<and> fst (createBooking h w eventId slug email) \<noteq> Success b"
proof -
  obtain b0 w' where "Booking_create sample_host (record_effect Connect sample_world)
      (js ''000000000000000000000000'') (js ''a@b.co'') = (Inr b0, w')"
    "bookings w' = [b0]" "bk_email b0 = js ''a@b.co''"
    using sample_booking_created by blast
  moreover have "connectDB sample_host = None" by (simp add: sample_host_def)
  ultimately have "createBooking sample_host sample_world (js ''000000000000000000000000'')
      (js ''hello-world-2024'') (js ''a@b.co'')
     = (Failure (TypeError (js ''(intermediate value).lean is not a function'')), w')"
    "map bk_email (bookings w') = [js ''a@b.co'']"
    by (simp_all add: createBooking_def Let_def Document_lean_def)
  then show ?thesis
    using createBooking_no_success [of h w eventId slug email b] by simp
qed

section \<open>Properties of the event-creation handler\<close>

lemma Event_create_effects: "effects (snd (Event_create h w i)) = effects w @ [EventCreate]"
  by (auto simp: Event_create_def Let_def Event_insert_def record_effect_def
      split: sum.splits)

lemma Event_create_failed: "fst (Event_create h w i) = Inl e \<Longrightarrow> events (snd (Event_create h w i)) = events w"
  by (auto simp: Event_create_def Let_def Event_insert_def record_effect_def
      split: sum.splits if_splits)

lemma upload_and_create_rejected:
  assumes "upload_stream h buffer = Inl e"
  shows "upload_and_create h w form tags agenda buffer =
         (creation_failed e, record_effect (UploadSettled False) w)"
  using assms by (simp add: upload_and_create_def)

lemma upload_and_create_run:
  "(effects (snd (upload_and_create h w form tags agenda buffer)) = effects w @ [UploadSettled False]
      \<and> events (snd (upload_and_create h w form tags agenda buffer)) = events w)
   \<or> effects (snd (upload_and_create h w form tags agenda buffer))
        = effects w @ [UploadSettled True, EventCreate]"
proof (cases "upload_stream h buffer")
  case (Inl e)
  then show ?thesis by (simp add: upload_and_create_def record_effect_def)
next
  case (Inr r)
  define w1 where "w1 = record_effect (UploadSettled True) w"
  define i where "i = create_argument h form r tags agenda"
  have "effects (snd (Event_create h w1 i)) = effects w @ [UploadSettled True, EventCreate]"
    by (simp add: Event_create_effects w1_def record_effect_def)
  moreover have "snd (upload_and_create h w form tags agenda buffer) = snd (Event_create h w1 i)"
    using Inr by (simp add: upload_and_create_def w1_def i_def split: prod.splits sum.splits)
  ultimately show ?thesis by simp
qed

lemma parse_and_upload_run:
  "(effects (snd (parse_and_upload h w form file)) = effects w
      \<and> events (snd (parse_and_upload h w form file)) = events w)
   \<or> (effects (snd (parse_and_upload h w form file)) = effects w @ [UploadSettled False]
      \<and> events (snd (parse_and_upload h w form file)) = events w)
   \<or> effects (snd (parse_and_upload h w form file)) = effects w @ [UploadSettled True, EventCreate]"
  using upload_and_create_run [of h w form]
  by (auto simp: parse_and_upload_def split: sum.splits entry.splits)

lemma POST_run:
  "(effects (snd (POST h w req)) = effects w @ [Connect]
      \<and> events (snd (POST h w req)) = events w)
   \<or> (effects (snd (POST h w req)) = effects w @ [Connect, UploadSettled False]
      \<and> events (snd (POST h w req)) = events w)
   \<or> effects (snd (POST h w req)) = effects w @ [Connect, UploadSettled True, EventCreate]"
proof -
  define w1 where "w1 = record_effect Connect w"
  have w1: "effects w1 = effects w @ [Connect]" "events w1 = events w"
    by (simp_all add: w1_def record_effect_def)
  show ?thesis
  proof (cases "\<exists>form file. connectDB h = None \<and> formData req = Inr form
      \<and> form_get form ''image'' = Some file \<and> \<not> falsy (Some file)")
    case True
    then obtain form f where "POST h w req = parse_and_upload h w1 form f"
      by (auto simp: POST_def Let_def w1_def)
    then show ?thesis using parse_and_upload_run [of h w1 form f] w1 by auto
  next
    case False
    then have "snd (POST h w req) = w1"
      by (auto simp: POST_def Let_def w1_def split: option.splits sum.splits)
    then show ?thesis using w1 by simp
  qed
qed

lemma POST_upload_rejected:
  assumes "connectDB h = None" "formData req = Inr form"
    "form_get form ''image'' = Some (File buffer)" "upload_stream h buffer = Inl e"
  shows "status (fst (POST h w req)) = 500 \<and> events (snd (POST h w req)) = events w
         \<and> EventCreate \<notin> set (new_effects w (snd (POST h w req)))"
proof -
  define w1 where "w1 = record_effect Connect w"
  have p: "POST h w req = parse_and_upload h w1 form (File buffer)"
    using assms by (simp add: POST_def Let_def w1_def falsy_def)
  have w1: "effects w1 = effects w @ [Connect]" "events w1 = events w"
    by (simp_all add: w1_def record_effect_def)
  have "status (fst (parse_and_upload h w1 form (File buffer))) = 500
      \<and> events (snd (parse_and_upload h w1 form (File buffer))) = events w1
      \<and> (effects (snd (parse_and_upload h w1 form (File buffer))) = effects w1
          \<or> effects (snd (parse_and_upload h w1 form (File buffer))) = effects w1 @ [UploadSettled False])"
    using assms(4)
    by (auto simp: parse_and_upload_def upload_and_create_rejected creation_failed_def
        record_effect_def split: sum.splits)
  with p w1 show ?thesis by (auto simp: new_effects_def)
qed

lemma POST_new_effects: "effects (snd (POST h w req)) = effects w @ new_effects w (snd (POST h w req))"
  using POST_run [of h w req] by (auto simp: new_effects_def)

lemma sample_hook_any:
  "\<exists>d. EventSchema_pre_save (host_parse 0)
          (new_event sample_host w (EventSchema_setters (sample_input t))) = Inr d
       \<and> ev_slug (doc_of d) = Some (slug_setters (generateSlug (trim t)))
       \<and> ev_date (doc_of d) = js ''2024-03-05'' \<and> ev_time (doc_of d) = js ''14:30''"
proof -
  define d0 where "d0 = new_event sample_host w (EventSchema_setters (sample_input t))"
  have m: "isNew d0" "isModified d0 ''date''" "isModified d0 ''time''"
    "ev_date (doc_of d0) = js ''March 5, 2024''" "ev_time (doc_of d0) = js ''2:30 PM''"
    by (simp_all add: d0_def sample_input_def schema_defs isModified_def)
  have "ev_title (doc_of d0) = trim t"
    by (simp add: d0_def sample_input_def new_event_title)
  then have s: "ev_slug (doc_of (set_slug d0)) = Some (slug_setters (generateSlug (trim t)))"
    using m(1) by (simp add: set_slug_def)
  have k: "isModified (set_slug d0) ''date''" "ev_date (doc_of (set_slug d0)) = js ''March 5, 2024''"
    "isModified (set_slug d0) ''time''" "ev_time (doc_of (set_slug d0)) = js ''2:30 PM''"
    using m by (simp_all add: set_slug_def isModified_def)
  define d1 where "d1 = (set_slug d0)\<lparr>doc_of := (doc_of (set_slug d0))\<lparr>ev_date := js ''2024-03-05''\<rparr>\<rparr>"
  have 1: "set_date (host_parse 0) (set_slug d0) = Inr d1"
    using k by (simp add: set_date_def normalizeDate_march_utc d1_def)
  have "isModified d1 ''time''" "ev_time (doc_of d1) = js ''2:30 PM''"
    using k by (simp_all add: d1_def isModified_def)
  then have 2: "set_time d1 = Inr (d1\<lparr>doc_of := (doc_of d1)\<lparr>ev_time := js ''14:30''\<rparr>\<rparr>)"
    by (simp add: set_time_def normalizeTime_230pm)
  have "ev_slug (doc_of (d1\<lparr>doc_of := (doc_of d1)\<lparr>ev_time := js ''14:30''\<rparr>\<rparr>))
      = Some (slug_setters (generateSlug (trim t)))"
    "ev_date (doc_of (d1\<lparr>doc_of := (doc_of d1)\<lparr>ev_time := js ''14:30''\<rparr>\<rparr>)) = js ''2024-03-05''"
    using s by (simp_all add: d1_def)
  with 1 2 show ?thesis
    unfolding d0_def [symmetric] by (simp add: EventSchema_pre_save_def)
qed

lemma hello_trim: "trim (js ''Hello, World!!! 2024'') = js ''Hello, World!!! 2024''"
  by (simp add: trim_def js_def unit_defs)

lemma hello_slug_setters: "slug_setters (js ''hello-world-2024'') = js ''hello-world-2024''"
  by (simp add: slug_setters_def trim_def toLowerCase_def lower_unit_def js_def unit_defs)

lemma hello_valid:
  "EventSchema_validate (EventSchema_setters (sample_input (js ''Hello, World!!! 2024''))) = []"
  by (simp add: sample_input_def schema_defs js_def trim_def unit_defs)

lemma hello_create:
  "\<exists>e w'. Event_create sample_host (record_effect (UploadSettled True) (record_effect Connect empty_world))
        (sample_input (js ''Hello, World!!! 2024'')) = (Inr e, w')
      \<and> ev_slug e = Some (js ''hello-world-2024'') \<and> ev_date e = js ''2024-03-05''
      \<and> ev_time e = js ''14:30'' \<and> events w' = [e]"
proof -
  define w1 where "w1 = record_effect EventCreate
      (record_effect (UploadSettled True) (record_effect Connect empty_world))"
  obtain d where d: "EventSchema_pre_save (host_parse 0)
        (new_event sample_host w1 (EventSchema_setters (sample_input (js ''Hello, World!!! 2024'')))) = Inr d"
      "ev_slug (doc_of d) = Some (js ''hello-world-2024'')"
      "ev_date (doc_of d) = js ''2024-03-05''" "ev_time (doc_of d) = js ''14:30''"
    using sample_hook_any [of w1 "js ''Hello, World!!! 2024''"]
    by (auto simp: hello_trim generateSlug_hello hello_slug_setters)
  have "Event_insert w1 (doc_of d) = (Inr (doc_of d), w1\<lparr>events := [doc_of d]\<rparr>)"
    by (simp add: Event_insert_def w1_def record_effect_def empty_world_def)
  with d have "Event_create sample_host (record_effect (UploadSettled True) (record_effect Connect empty_world))
        (sample_input (js ''Hello, World!!! 2024'')) = (Inr (doc_of d), w1\<lparr>events := [doc_of d]\<rparr>)"
    by (simp add: Event_create_def Let_def hello_valid w1_def [symmetric] sample_host_def)
  with d show ?thesis by simp
qed

lemmas form_defs = form_get_def fromEntries_def sample_form_def falsy_def as_string_def
  entry_cast_def

lemma sample_form_argument:
  "create_argument sample_host (sample_form (js ''[1]''))
     \<lparr>secure_url = js ''https://res.cloudinary.com/a.png''\<rparr>
     (JArray [JNumber (js ''1'')]) (JArray [JNumber (js ''1'')])
   = sample_input (js ''Hello, World!!! 2024'')"
  by (simp add: create_argument_def sample_input_def form_defs sample_host_def
      sample_castStrings_def js_def)

lemma sample_form_image:
  "form_get (sample_form t) ''image'' = Some (File [137, 80, 78, 71])"
  "form_get (sample_form t) ''tags'' = Some (Text t)"
  "form_get (sample_form t) ''agenda'' = Some (Text (js ''[1]''))"
  by (simp_all add: form_defs js_def)

lemma sample_parse:
  "JSON_parse sample_host (js ''[1]'') = Inr (JArray [JNumber (js ''1'')])"
  "JSON_parse sample_host (js ''not json'') = Inl (SyntaxError (js ''Unexpected token''))"
  by (simp_all add: sample_host_def sample_JSON_parse_def js_def)

lemma POST_sample_created:
  "\<exists>e w'. POST sample_host empty_world \<lparr>formData = Inr (sample_form (js ''[1]''))\<rparr>
        = (event_created e, w')
      \<and> ev_slug e = Some (js ''hello-world-2024'') \<and> ev_date e = js ''2024-03-05''
      \<and> ev_time e = js ''14:30'' \<and> events w' = [e]"
proof -
  obtain e w' where c: "Event_create sample_host
        (record_effect (UploadSettled True) (record_effect Connect empty_world))
        (sample_input (js ''Hello, World!!! 2024'')) = (Inr e, w')"
      "ev_slug e = Some (js ''hello-world-2024'')" "ev_date e = js ''2024-03-05''"
      "ev_time e = js ''14:30''" "events w' = [e]"
    using hello_create by blast
  have u: "upload_stream sample_host [137, 80, 78, 71]
      = Inr \<lparr>secure_url = js ''https://res.cloudinary.com/a.png''\<rparr>"
    and n: "connectDB sample_host = None"
    by (simp_all add: sample_host_def)
  have "upload_and_create sample_host (record_effect Connect empty_world) (sample_form (js ''[1]''))
      (JArray [JNumber (js ''1'')]) (JArray [JNumber (js ''1'')]) [137, 80, 78, 71]
      = (event_created e, w')"
    using c(1) by (simp add: upload_and_create_def u sample_form_argument)
  then have "parse_and_upload sample_host (record_effect Connect empty_world)
      (sample_form (js ''[1]'')) (File [137, 80, 78, 71]) = (event_created e, w')"
    by (simp add: parse_and_upload_def sample_form_image sample_parse as_string_def)
  then have "POST sample_host empty_world \<lparr>formData = Inr (sample_form (js ''[1]''))\<rparr>
      = (event_created e, w')"
    by (simp add: POST_def Let_def n sample_form_image falsy_def)
  with c show ?thesis by blast
qed

lemma POST_sample_bad_tags:
  "POST sample_host empty_world \<lparr>formData = Inr (sample_form (js ''not json''))\<rparr>
   = (creation_failed (SyntaxError (js ''Unexpected token'')), record_effect Connect empty_world)"
proof -
  have n: "connectDB sample_host = None" by (simp add: sample_host_def)
  have "parse_and_upload sample_host (record_effect Connect empty_world)
      (sample_form (js ''not json'')) (File [137, 80, 78, 71])
      = (creation_failed (SyntaxError (js ''Unexpected token'')), record_effect Connect empty_world)"
    by (simp add: parse_and_upload_def sample_form_image sample_parse as_string_def)
  then show ?thesis
    by (simp add: POST_def Let_def n sample_form_image falsy_def)
qed

lemma POST_400_iff:
  "(status (fst (POST h w req)) = 400) =
   (connectDB h = None
    \<and> (case formData req of Inl e \<Rightarrow> False | Inr form \<Rightarrow> falsy (form_get form ''image'')))"
proof -
  have a: "status (creation_failed e) \<noteq> 400" for e by (simp add: creation_failed_def)
  have b: "status (event_created e) \<noteq> 400" for e by (simp add: event_created_def)
  have u: "status (fst (upload_and_create h w1 form tags agenda buffer)) \<noteq> 400"
    for w1 form tags agenda buffer
    using a b by (auto simp: upload_and_create_def split: sum.splits prod.splits)
  have p: "status (fst (parse_and_upload h w1 form f)) \<noteq> 400" for w1 form f
    using a u by (auto simp: parse_and_upload_def split: sum.splits entry.splits)
  have c: "status image_required = 400" by (simp add: image_required_def)
  show ?thesis
  proof (cases "connectDB h")
    case (Some e)
    then show ?thesis using a by (simp add: POST_def Let_def)
  next
    case None
    show ?thesis
    proof (cases "formData req")
      case (Inl e)
      with None show ?thesis using a by (simp add: POST_def Let_def)
    next
      case (Inr form)
      show ?thesis
      proof (cases "form_get form ''image''")
        case n: None
        with None Inr show ?thesis using c by (simp add: POST_def Let_def falsy_def)
      next
        case (Some f)
        with None Inr show ?thesis using c p by (simp add: POST_def Let_def)
      qed
    qed
  qed
qed

text \<open>
  C1. When the upload of the image rejects, the handler answers 500, the collection of
  events is unchanged and \<open>Event.create\<close> is not called. In every run the calls to the
  collaborators are the connection alone, or the connection and a rejected upload, or
  the connection, a fulfilled upload and then \<open>Event.create\<close>: the persist step comes
  only after the upload has settled with success, and only then can the collection
  change.
\<close>

theorem upload_failure_never_persists:
  "(connectDB h = None \<and> formData req = Inr form
      \<and> form_get form ''image'' = Some (File buffer) \<and> upload_stream h buffer = Inl e \<longrightarrow>
      status (fst (POST h w req)) = 500
      \<and> events (snd (POST h w req)) = events w
      \<and> EventCreate \<notin> set (new_effects w (snd (POST h w req))))
   \<and> effects (snd (POST h w req)) = effects w @ new_effects w (snd (POST h w req))
   \<and> (new_effects w (snd (POST h w req)) = [Connect]
         \<and> events (snd (POST h w req)) = events w
       \<or> new_effects w (snd (POST h w req)) = [Connect, UploadSettled False]
         \<and> events (snd (POST h w req)) = events w
       \<or> new_effects w (snd (POST h w req)) = [Connect, UploadSettled True, EventCreate])"
proof -
  have "new_effects w (snd (POST h w req)) = [Connect]
         \<and> events (snd (POST h w req)) = events w
       \<or> new_effects w (snd (POST h w req)) = [Connect, UploadSettled False]
         \<and> events (snd (POST h w req)) = events w
       \<or> new_effects w (snd (POST h w req)) = [Connect, UploadSettled True, EventCreate]"
    using POST_run [of h w req] by (auto simp: new_effects_def)
  then show ?thesis
    using POST_upload_rejected [of h req form buffer e w] POST_new_effects [of h w req]
    by blast
qed

theorem upload_failure_never_persists_witness:
  "connectDB failing_upload_host = None
   \<and> form_get (sample_form (js ''[1]'')) ''image'' = Some (File [137, 80, 78, 71])
   \<and> upload_stream failing_upload_host [137, 80, 78, 71] = Inl NonError
   \<and> status (fst (POST failing_upload_host empty_world \<lparr>formData = Inr (sample_form (js ''[1]''))\<rparr>)) = 500
   \<and> events (snd (POST failing_upload_host empty_world \<lparr>formData = Inr (sample_form (js ''[1]''))\<rparr>)) = []
   \<and> new_effects empty_world
        (snd (POST failing_upload_host empty_world \<lparr>formData = Inr (sample_form (js ''[1]''))\<rparr>))
      = [Connect, UploadSettled False]"
proof -
  define req where "req = \<lparr>formData = Inr (sample_form (js ''[1]''))\<rparr>"
  have 1: "connectDB failing_upload_host = None"
    and 2: "formData req = Inr (sample_form (js ''[1]''))"
    and 3: "form_get (sample_form (js ''[1]'')) ''image'' = Some (File [137, 80, 78, 71])"
    and 4: "upload_stream failing_upload_host [137, 80, 78, 71] = Inl NonError"
    by (simp_all add: failing_upload_host_def sample_host_def req_def sample_form_image)
  have 5: "JSON_parse failing_upload_host (js ''[1]'') = Inr (JArray [JNumber (js ''1'')])"
    using sample_parse(1) by (simp add: failing_upload_host_def)
  have "POST failing_upload_host empty_world req =
      (creation_failed NonError, record_effect (UploadSettled False) (record_effect Connect empty_world))"
    by (simp add: POST_def Let_def 1 2 3 falsy_def parse_and_upload_def sample_form_image
        as_string_def 5 upload_and_create_def 4)
  then have 6: "new_effects empty_world (snd (POST failing_upload_host empty_world req))
      = [Connect, UploadSettled False]"
    by (simp add: new_effects_def record_effect_def empty_world_def)
  have 7: "events empty_world = []" by (simp add: empty_world_def)
  note th = upload_failure_never_persists [where h = failing_upload_host and req = req
      and form = "sample_form (js ''[1]'')" and buffer = "[137, 80, 78, 71]" and e = NonError
      and w = empty_world]
  from th 1 2 3 4 6 7 show ?thesis unfolding req_def by simp
qed

text \<open>
  C2 fails on the code. The form of the sample with \<open>tags\<close> set to a text that is not
  JSON is answered with status 500 and \<open>{message, error}\<close>, where the claim has 400 and
  \<open>{message}\<close>; nothing is stored. The same form with \<open>tags\<close> set to \<open>[1]\<close> is answered
  with 201.
\<close>

theorem malformed_tags_answered_500:
  "fst (POST sample_host empty_world \<lparr>formData = Inr (sample_form (js ''not json''))\<rparr>)
     = \<lparr>status = 500,
        body = MessageError (js ''Event Creation Failed'')
                 (MessageOf (SyntaxError (js ''Unexpected token'')))\<rparr>
   \<and> events (snd (POST sample_host empty_world \<lparr>formData = Inr (sample_form (js ''not json''))\<rparr>)) = []
   \<and> status (fst (POST sample_host empty_world \<lparr>formData = Inr (sample_form (js ''[1]''))\<rparr>)) = 201"
proof -
  obtain e w' where "POST sample_host empty_world \<lparr>formData = Inr (sample_form (js ''[1]''))\<rparr>
        = (event_created e, w')"
    using POST_sample_created by blast
  then have "status (fst (POST sample_host empty_world
      \<lparr>formData = Inr (sample_form (js ''[1]''))\<rparr>)) = 201"
    by (simp add: event_created_def)
  moreover have "events (record_effect Connect empty_world) = []"
    by (simp add: record_effect_def empty_world_def)
  ultimately show ?thesis
    by (simp add: POST_sample_bad_tags creation_failed_def instanceof_Error_def)
qed

end
